theory Spec2Isabelle
  imports Complex_Main "HOL-Library.Word" "HOL-Library.Signed_Division"
begin

section \<open>Machine integers\<close>

text \<open>
  The kernel computes with \<open>uint32_t\<close> / \<open>unsigned int\<close> (\<open>gridDim.x\<close>, \<open>blockIdx.x\<close>,
  \<open>tile_idx\<close>, \<open>problem_chunk\<close>) and with \<open>int\<close> (the coordinates of \<open>GemmCoord\<close> and
  \<open>MatrixCoord\<close>, the tile shape constants). Both are 32-bit words here. Addition,
  subtraction and multiplication are the same bit operation for both; \<open>div\<close>, \<open>mod\<close>
  and \<open><\<close> on words are the unsigned ones; the signed comparison is \<open><s\<close> / \<open>\<le>s\<close> and
  the signed division is \<open>c_sdiv\<close>. A conversion between \<open>int\<close> and \<open>unsigned\<close> keeps
  the bits, so it is the identity. Signed overflow is undefined in C++; the words wrap,
  which is what the device does, and the theorems about signed results state the range
  in which no overflow happens.
\<close>

type_synonym u32 = "32 word"
type_synonym i32 = "32 word"

text \<open>
  C++ \<open>/\<close> on \<open>int\<close>: truncation towards zero. Its divisors in the kernel are the tile
  shape constants \<open>kM\<close> and \<open>kN\<close>, positive at compile time.
\<close>

definition c_sdiv :: "i32 \<Rightarrow> i32 \<Rightarrow> i32" where
  "c_sdiv a b = word_of_int (sint a sdiv sint b)"

section \<open>Coordinates and the tile shape\<close>

text \<open>\<open>cutlass::gemm::GemmCoord\<close>: the problem size (m, n, k).\<close>

record GemmCoord =
  gc_m :: i32
  gc_n :: i32
  gc_k :: i32

text \<open>\<open>cutlass::MatrixCoord\<close>: (row, column).\<close>

record MatrixCoord =
  mc_row :: i32
  mc_column :: i32

text \<open>\<open>ThreadblockShape\<close> = \<open>Mma::Shape\<close>: the compile-time tile shape.\<close>

record Shape =
  kM :: i32
  kN :: i32
  kK :: i32

section \<open>Arguments and Params\<close>

record temp_problem_visitor =
  problem_count :: i32

text \<open>
  \<open>Arguments\<close>. Pointers are addresses; \<open>'op\<close> is \<open>EpilogueOutputOp::Params\<close>. The member
  \<open>int problem_count\<close> of \<open>Arguments\<close> is set by no constructor.
\<close>

record 'op Arguments =
  a_problem_sizes :: GemmCoord
  a_problem_visitor :: temp_problem_visitor
  a_problem_count :: i32
  a_threadblock_count :: i32
  a_output_op :: 'op
  a_ptr_A :: nat
  a_ptr_B :: nat
  a_ptr_C :: nat
  a_ptr_Vector :: nat
  a_ptr_Tensor :: nat
  a_lda :: int
  a_ldb :: int
  a_ldc :: int
  a_ldt :: int
  a_host_problem_sizes :: nat

text \<open>
  The iterator parameter objects are built from a stride (\<open>params_A(args.lda)\<close>), the
  reduction iterator's from a stride and the output operator
  (\<open>params_Tensor(args.ldt, args.output_op)\<close>); they are kept as their constructor
  arguments.
\<close>

datatype IteratorParams = IteratorParams int

datatype 'op TensorParams = TensorParams int 'op

record 'op Params =
  problem_visitor :: temp_problem_visitor
  threadblock_count :: i32
  params_A :: IteratorParams
  params_B :: IteratorParams
  params_C :: IteratorParams
  params_Tensor :: "'op TensorParams"
  output_op :: 'op
  ptr_A :: nat
  ptr_B :: nat
  ptr_C :: nat
  ptr_Vector :: nat
  ptr_Tensor :: nat
  problem_size :: GemmCoord
  lda :: int
  ldb :: int
  ldc :: int
  ldt :: int

text \<open>\<open>Params(Arguments const& args, void* workspace, int tile_count)\<close>\<close>

definition Params_ctor :: "'op Arguments \<Rightarrow> 'op Params" where
  "Params_ctor args =
     \<lparr> problem_visitor = \<lparr> problem_count = problem_count (a_problem_visitor args) \<rparr>,
       threadblock_count = a_threadblock_count args,
       params_A = IteratorParams (a_lda args),
       params_B = IteratorParams (a_ldb args),
       params_C = IteratorParams (a_ldc args),
       params_Tensor = TensorParams (a_ldt args) (a_output_op args),
       output_op = a_output_op args,
       ptr_A = a_ptr_A args,
       ptr_B = a_ptr_B args,
       ptr_C = a_ptr_C args,
       ptr_Vector = a_ptr_Vector args,
       ptr_Tensor = a_ptr_Tensor args,
       problem_size = a_problem_sizes args,
       lda = a_lda args,
       ldb = a_ldb args,
       ldc = a_ldc args,
       ldt = a_ldt args \<rparr>"

text \<open>\<open>Params::update(Arguments const& args, ...)\<close>: the object is passed and returned.\<close>

definition Params_update :: "'op Arguments \<Rightarrow> 'op Params \<Rightarrow> 'op Params" where
  "Params_update args p =
     p \<lparr> threadblock_count := a_threadblock_count args,
         output_op := a_output_op args,
         ptr_A := a_ptr_A args,
         ptr_B := a_ptr_B args,
         ptr_C := a_ptr_C args,
         ptr_Vector := a_ptr_Vector args,
         ptr_Tensor := a_ptr_Tensor args,
         lda := a_lda args,
         ldb := a_ldb args,
         ldc := a_ldc args,
         ldt := a_ldt args,
         problem_size := a_problem_sizes args \<rparr>"

section \<open>Capability check\<close>

text \<open>\<open>cutlass::Status\<close>, the values a capability check can return.\<close>

datatype Status = kSuccess | kErrorMisalignedOperand | kErrorInvalidProblem | kErrorNotSupported

text \<open>\<open>static Status can_implement(GemmCoord const& problem_size)\<close>\<close>

definition can_implement :: "GemmCoord \<Rightarrow> Status" where
  "can_implement problem = kSuccess"

text \<open>\<open>static Status can_implement(Arguments const& args)\<close>\<close>

definition can_implement_args :: "'op Arguments \<Rightarrow> Status" where
  "can_implement_args args = kSuccess"

section \<open>Tile grid\<close>

text \<open>\<open>tile_count_\<close>: the \<open>int\<close> product, converted to \<open>uint32_t\<close>.\<close>

definition tile_count :: "MatrixCoord \<Rightarrow> u32" where
  "tile_count grid = mc_row grid * mc_column grid"

text \<open>\<open>grid_shape_\<close>\<close>

definition grid_shape :: "Shape \<Rightarrow> GemmCoord \<Rightarrow> MatrixCoord" where
  "grid_shape sh problem =
     \<lparr> mc_row = c_sdiv (gc_m problem - 1 + kM sh) (kM sh),
       mc_column = c_sdiv (gc_n problem - 1 + kN sh) (kN sh) \<rparr>"

section \<open>The kernel\<close>

text \<open>
  An integer division or remainder by zero is undefined in C++; it is the error
  \<open>DivideByZero\<close> here.
\<close>

datatype error = DivideByZero

text \<open>The built-in launch variables of one thread.\<close>

record LaunchIdx =
  gridDim_x :: u32
  blockIdx_x :: u32
  blockDim_x :: u32
  threadIdx_x :: u32

text \<open>
  One iteration of the persistent loop: the tile index, the \<open>threadblock_offset\<close> given
  to the operand iterators and to the epilogue, and the flag \<open>do_gmem_reduce\<close> given to
  the reduction iterator, with the two tests it is made of. The matrix multiply and the
  epilogue themselves are template parameters of the kernel.
\<close>

record TileIter =
  tile_idx :: u32
  threadblock_offset :: MatrixCoord
  isNextTile :: bool
  doesRowChange :: bool
  do_gmem_reduce :: bool

text \<open>The body of the persistent loop, up to the construction of \<open>tensor_iterator\<close>.\<close>

definition tile_body :: "Shape \<Rightarrow> GemmCoord \<Rightarrow> u32 \<Rightarrow> u32 \<Rightarrow> TileIter" where
  "tile_body sh problem chunk_end t =
     (let grid = grid_shape sh problem;
          offs = \<lparr> mc_row = (t div mc_column grid) * kM sh,
                   mc_column = (t mod mc_column grid) * kN sh \<rparr>;
          next_tile = (t + 1 < chunk_end);
          row_change = (gc_n problem \<le>s mc_column offs + kN sh)
      in \<lparr> tile_idx = t, threadblock_offset = offs, isNextTile = next_tile,
           doesRowChange = row_change, do_gmem_reduce = (row_change \<or> \<not> next_tile) \<rparr>)"

text \<open>
  \<open>for (uint32_t tile_idx = blockIdx.x * problem_chunk; tile_idx < problem_chunk_end; tile_idx++)\<close>
\<close>

function tile_loop :: "Shape \<Rightarrow> GemmCoord \<Rightarrow> u32 \<Rightarrow> u32 \<Rightarrow> error + TileIter list" where
  "tile_loop sh problem chunk_end t =
     (if t < chunk_end then
        (if mc_column (grid_shape sh problem) = 0 then Inl DivideByZero
         else case tile_loop sh problem chunk_end (t + 1) of
                Inl e \<Rightarrow> Inl e
              | Inr rest \<Rightarrow> Inr (tile_body sh problem chunk_end t # rest))
      else Inr [])"
  by pat_completeness auto
termination
proof (relation "measure (\<lambda>(sh, problem, chunk_end, t). unat chunk_end - unat t)")
  show "wf (measure (\<lambda>(sh, problem, chunk_end, t). unat chunk_end - unat t))"
    by simp
next
  fix sh :: Shape and problem :: GemmCoord and chunk_end t :: u32
  assume lt: "t < chunk_end"
  then have a: "unat t < unat chunk_end"
    by (simp add: word_less_nat_alt)
  have "unat chunk_end < 2 ^ 32"
    using unsigned_less [of chunk_end, where 'a = nat] by simp
  with a have "unat t + unat (1 :: u32) < 2 ^ LENGTH(32)"
    by simp
  then have "unat (t + 1) = unat t + 1"
    using unat_add_lem [of t 1] by simp
  with a show "((sh, problem, chunk_end, t + 1), (sh, problem, chunk_end, t))
      \<in> measure (\<lambda>(sh, problem, chunk_end, t). unat chunk_end - unat t)"
    by simp
qed

text \<open>
  \<open>for (int row = threadIdx.x; row < Mma::Shape::kM; row += blockDim.x)\<close>: the rows one
  thread visits, in order. The loop does not return when \<open>blockDim.x\<close> is 0, and need
  not when the addition wraps.
\<close>

partial_function (option) strided_rows :: "u32 \<Rightarrow> i32 \<Rightarrow> i32 \<Rightarrow> i32 list \<Rightarrow> i32 list option" where
  "strided_rows stride limit r acc =
     (if r <s limit then strided_rows stride limit (r + stride) (acc @ [r]) else Some acc)"

declare strided_rows.simps [code]

text \<open>
  \<open>cp_async(shared_elem_arr + row_local, gmem_ptr + row_local, guard)\<close>: the element of
  \<open>rownorm_store\<close> written, the element of the row-norm vector \<open>ptr_C\<close> read (64-bit
  pointer arithmetic), and the guard; nothing is read when the guard is false.
\<close>

record CpAsync =
  smem_index :: i32
  gmem_index :: int
  guard :: bool

text \<open>
  What one thread does in \<open>operator()\<close>: the elements of \<open>reduced_store\<close> it initialises
  to the identity, its asynchronous copies of row norms, and its tile iterations.
\<close>

record ThreadTrace =
  red_init :: "i32 list"
  prefetch :: "CpAsync list"
  tiles :: "TileIter list"

text \<open>
  The locals \<open>problem_chunk\<close> and \<open>problem_chunk_end\<close> of \<open>operator()\<close>; the divisor
  \<open>gridDim.x\<close> is checked by the caller.
\<close>

definition problem_chunk :: "Shape \<Rightarrow> u32 \<Rightarrow> GemmCoord \<Rightarrow> u32" where
  "problem_chunk sh grid_dim problem =
     (tile_count (grid_shape sh problem) - 1 + grid_dim) div grid_dim"

definition problem_chunk_end :: "u32 \<Rightarrow> u32 \<Rightarrow> u32" where
  "problem_chunk_end block_idx chunk = block_idx * chunk + chunk"

text \<open>
  The locals \<open>column\<close> and \<open>row\<close> of the code before the loop: the offsets of the tile
  \<open>blockIdx.x * problem_chunk\<close>; the divisor \<open>grid_shape.column()\<close> is checked by the
  caller.
\<close>

definition first_column :: "Shape \<Rightarrow> LaunchIdx \<Rightarrow> GemmCoord \<Rightarrow> i32" where
  "first_column sh li problem =
     ((blockIdx_x li * problem_chunk sh (gridDim_x li) problem)
        mod mc_column (grid_shape sh problem)) * kN sh"

definition first_row :: "Shape \<Rightarrow> LaunchIdx \<Rightarrow> GemmCoord \<Rightarrow> i32" where
  "first_row sh li problem =
     ((blockIdx_x li * problem_chunk sh (gridDim_x li) problem)
        div mc_column (grid_shape sh problem)) * kM sh"

text \<open>
  \<open>operator()(Params const& params, SharedStorage& shared_storage)\<close>, for the thread
  \<open>li\<close> and \<open>params.problem_size = problem\<close>. \<open>None\<close>: the thread does not return.
\<close>

definition operator_call :: "Shape \<Rightarrow> LaunchIdx \<Rightarrow> GemmCoord \<Rightarrow> (error + ThreadTrace) option" where
  "operator_call sh li problem =
     (if gridDim_x li = 0 then Some (Inl DivideByZero)
      else
        let chunk = problem_chunk sh (gridDim_x li) problem;
            chunk_end = problem_chunk_end (blockIdx_x li) chunk
        in if mc_column (grid_shape sh problem) = 0 then Some (Inl DivideByZero)
           else
             let column = first_column sh li problem
             in case (if column \<noteq> 0
                      then strided_rows (blockDim_x li) (kM sh) (threadIdx_x li) []
                      else Some []) of
                  None \<Rightarrow> None
                | Some init_rows \<Rightarrow>
                    (case (if column \<noteq> 0
                           then strided_rows (blockDim_x li) (kM sh) (threadIdx_x li) []
                           else Some []) of
                       None \<Rightarrow> None
                     | Some local_rows \<Rightarrow>
                         let row = first_row sh li problem;
                             copies = map (\<lambda>row_local.
                                        \<lparr> smem_index = row_local,
                                          gmem_index = sint row + sint row_local,
                                          guard = (row + row_local <s gc_m problem) \<rparr>)
                                      local_rows
                         in Some (case tile_loop sh problem chunk_end (blockIdx_x li * chunk) of
                                    Inl e \<Rightarrow> Inl e
                                  | Inr ts \<Rightarrow>
                                      Inr \<lparr> red_init = init_rows, prefetch = copies,
                                            tiles = ts \<rparr>)))"

section \<open>Shared memory\<close>

text \<open>
  \<open>struct SharedStorage { union { Mma::SharedStorage main_loop; epilogue_SharedStorage
  epilogue_combined_store; } kernel; TensorTileIterator::SharedStorage reduced_store;
  OutputTileIterator::SharedStorage rownorm_store; }\<close>. The four member types are template
  parameters; each is given by its size and alignment.
\<close>

record TypeLayout =
  ty_size :: nat
  ty_align :: nat

record StorageTypes =
  Mma_SharedStorage :: TypeLayout
  Epilogue_SharedStorage :: TypeLayout
  TensorTileIterator_SharedStorage :: TypeLayout
  OutputTileIterator_SharedStorage :: TypeLayout

datatype member = main_loop | epilogue | reduced_store | rownorm_store

definition align_up :: "nat \<Rightarrow> nat \<Rightarrow> nat" where
  "align_up x a = ((x + a - 1) div a) * a"

text \<open>
  The union \<open>kernel\<close> is as large as its larger member, rounded up to its alignment.
  \<open>epilogue_SharedStorage\<close> is a struct of the single member \<open>epilogue\<close>.
\<close>

definition kernel_size :: "StorageTypes \<Rightarrow> nat" where
  "kernel_size ts =
     align_up (max (ty_size (Mma_SharedStorage ts)) (ty_size (Epilogue_SharedStorage ts)))
              (max (ty_align (Mma_SharedStorage ts)) (ty_align (Epilogue_SharedStorage ts)))"

definition member_size :: "StorageTypes \<Rightarrow> member \<Rightarrow> nat" where
  "member_size ts mb =
     (case mb of
        main_loop \<Rightarrow> ty_size (Mma_SharedStorage ts)
      | epilogue \<Rightarrow> ty_size (Epilogue_SharedStorage ts)
      | reduced_store \<Rightarrow> ty_size (TensorTileIterator_SharedStorage ts)
      | rownorm_store \<Rightarrow> ty_size (OutputTileIterator_SharedStorage ts))"

text \<open>
  Members of a struct are laid out in declaration order, each at the next offset that
  satisfies its alignment; members of a union all start at offset 0.
\<close>

definition member_offset :: "StorageTypes \<Rightarrow> member \<Rightarrow> nat" where
  "member_offset ts mb =
     (case mb of
        main_loop \<Rightarrow> 0
      | epilogue \<Rightarrow> 0
      | reduced_store \<Rightarrow>
          align_up (kernel_size ts) (ty_align (TensorTileIterator_SharedStorage ts))
      | rownorm_store \<Rightarrow>
          align_up (align_up (kernel_size ts) (ty_align (TensorTileIterator_SharedStorage ts))
                    + ty_size (TensorTileIterator_SharedStorage ts))
                   (ty_align (OutputTileIterator_SharedStorage ts)))"

text \<open>The bytes of one \<open>SharedStorage\<close> object, by offset from its start.\<close>

type_synonym smem = "nat \<Rightarrow> 8 word"

text \<open>A write of byte \<open>i\<close> of a member; \<open>None\<close> outside the member.\<close>

definition write_member :: "StorageTypes \<Rightarrow> member \<Rightarrow> nat \<Rightarrow> 8 word \<Rightarrow> smem \<Rightarrow> smem option" where
  "write_member ts mb i v s =
     (if i < member_size ts mb then Some (s (member_offset ts mb + i := v)) else None)"

text \<open>The contents of a member.\<close>

definition read_member :: "StorageTypes \<Rightarrow> member \<Rightarrow> smem \<Rightarrow> 8 word list" where
  "read_member ts mb s =
     map s [member_offset ts mb ..< member_offset ts mb + member_size ts mb]"

section \<open>Launches and the partition as specified\<close>

text \<open>
  A launch as the device makes it: at least one block and one thread per block, the
  block and thread indices below the dimensions. The block size and the tile height
  together fit an \<open>int\<close>, so that the row counter of a thread does not wrap.
\<close>

definition launch_ok :: "Shape \<Rightarrow> LaunchIdx \<Rightarrow> bool" where
  "launch_ok sh li \<longleftrightarrow>
     gridDim_x li \<noteq> 0 \<and> blockIdx_x li < gridDim_x li \<and>
     blockDim_x li \<noteq> 0 \<and> threadIdx_x li < blockDim_x li \<and>
     0 \<le> sint (kM sh) \<and> uint (blockDim_x li) + sint (kM sh) \<le> 2 ^ 31"

text \<open>
  The work chunk in the words of the specification:
  \<open>chunk_size = ceil(total_tiles / total_units)\<close> and
  \<open>range = [unit_index*chunk_size, min(total_tiles, unit_index*chunk_size + chunk_size))\<close>.
\<close>

definition spec_chunk_size :: "nat \<Rightarrow> nat \<Rightarrow> nat" where
  "spec_chunk_size total_tiles total_units = nat \<lceil>real total_tiles / real total_units\<rceil>"

definition spec_tile_range :: "nat \<Rightarrow> nat \<Rightarrow> nat \<Rightarrow> nat list" where
  "spec_tile_range total_tiles total_units unit_index =
     [unit_index * spec_chunk_size total_tiles total_units ..<
      min total_tiles (unit_index * spec_chunk_size total_tiles total_units
                       + spec_chunk_size total_tiles total_units)]"

text \<open>
  The tile indices a call of \<open>operator()\<close> iterated, in order; none when the call fails
  or does not return.
\<close>

definition iterated_tiles :: "(error + ThreadTrace) option \<Rightarrow> nat list" where
  "iterated_tiles r =
     (case r of Some (Inr tr) \<Rightarrow> map (unat \<circ> tile_idx) (tiles tr) | _ \<Rightarrow> [])"

text \<open>The tile indices a call iterated, each with the flag \<open>do_gmem_reduce\<close> it passed.\<close>

definition flushes :: "(error + ThreadTrace) option \<Rightarrow> (nat \<times> bool) list" where
  "flushes r =
     (case r of
        Some (Inr tr) \<Rightarrow> map (\<lambda>t. (unat (tile_idx t), do_gmem_reduce t)) (tiles tr)
      | _ \<Rightarrow> [])"

section \<open>Params: constructor and update\<close>

text \<open>
  C10: \<open>Params::update(args)\<close> sets \<open>threadblock_count\<close>, \<open>output_op\<close>, the five buffer
  pointers, the four strides and \<open>problem_size\<close> to the values in \<open>args\<close> and keeps the
  previous \<open>problem_visitor.problem_count\<close>, whereas the constructor
  \<open>Params(args, ...)\<close> sets \<open>problem_visitor.problem_count\<close> from \<open>args\<close>.
\<close>

theorem Params_update_keeps_problem_count:
  "threadblock_count (Params_update args p) = a_threadblock_count args \<and>
   output_op (Params_update args p) = a_output_op args \<and>
   ptr_A (Params_update args p) = a_ptr_A args \<and>
   ptr_B (Params_update args p) = a_ptr_B args \<and>
   ptr_C (Params_update args p) = a_ptr_C args \<and>
   ptr_Vector (Params_update args p) = a_ptr_Vector args \<and>
   ptr_Tensor (Params_update args p) = a_ptr_Tensor args \<and>
   lda (Params_update args p) = a_lda args \<and>
   ldb (Params_update args p) = a_ldb args \<and>
   ldc (Params_update args p) = a_ldc args \<and>
   ldt (Params_update args p) = a_ldt args \<and>
   problem_size (Params_update args p) = a_problem_sizes args \<and>
   problem_count (problem_visitor (Params_update args p)) = problem_count (problem_visitor p) \<and>
   problem_count (problem_visitor (Params_ctor args)) = problem_count (a_problem_visitor args)"
  by (simp add: Params_update_def Params_ctor_def)

section \<open>What the capability check returns\<close>

text \<open>
  C5: the capability check is documented as determining whether the kernel satisfies
  alignment. Both overloads return \<open>kSuccess\<close> for every input: no problem size and no
  arguments, whatever the pointers and strides, are rejected.
\<close>

theorem can_implement_always_kSuccess:
  "can_implement problem = kSuccess \<and> can_implement_args args = kSuccess"
  by (simp add: can_implement_def can_implement_args_def)

section \<open>Auxiliary facts\<close>

lemma unat_succ_less: "(t::u32) < e \<Longrightarrow> unat (t + 1) = Suc (unat t)"
proof -
  assume lt: "t < e"
  then have a: "unat t < unat e"
    by (simp add: word_less_nat_alt)
  have "unat e < 2 ^ 32"
    using unsigned_less [of e, where 'a = nat] by simp
  with a have "unat t + unat (1 :: u32) < 2 ^ LENGTH(32)"
    by simp
  then show ?thesis
    using unat_add_lem [of t 1] by simp
qed

lemma tile_loop_eq:
  assumes "mc_column (grid_shape sh p) \<noteq> 0"
  shows "tile_loop sh p e t = Inr (map (tile_body sh p e) (map of_nat [unat t ..< unat e]))"
  using assms
proof (induction sh p e t rule: tile_loop.induct)
  case (1 sh p e t)
  show ?case
  proof (cases "t < e")
    case True
    then have u: "unat t < unat e" by (simp add: word_less_nat_alt)
    have s: "unat (t + 1) = Suc (unat t)" using True by (rule unat_succ_less)
    have "[unat t ..< unat e] = unat t # [Suc (unat t) ..< unat e]"
      using u by (simp add: upt_conv_Cons)
    with 1 True s show ?thesis
      by (simp add: tile_loop.simps [of sh p e t])
  next
    case False
    then have "unat e \<le> unat t" by (simp add: word_less_nat_alt)
    with False show ?thesis
      by (simp add: tile_loop.simps [of sh p e t])
  qed
qed

lemma tile_loop_div0:
  "mc_column (grid_shape sh p) = 0 \<Longrightarrow> t < e \<Longrightarrow> tile_loop sh p e t = Inl DivideByZero"
  by (simp add: tile_loop.simps [of sh p e t])

lemma chunk_unat:
  fixes T g :: u32
  assumes g: "g \<noteq> 0" and fit: "unat T + unat g \<le> 2 ^ 32"
  shows "unat ((T - 1 + g) div g) = (unat T + unat g - 1) div unat g"
proof (cases "T = 0")
  case True
  have "unat (g - 1) = unat g - 1" using g by (simp add: unat_minus_one)
  with True show ?thesis by (simp add: unat_div)
next
  case False
  then have t1: "unat (T - 1) = unat T - 1" by (simp add: unat_minus_one)
  have tpos: "0 < unat T" using False by (simp add: unat_gt_0)
  have "unat (T - 1) + unat g < 2 ^ LENGTH(32)"
    using t1 tpos fit by simp
  then have "unat (T - 1 + g) = unat (T - 1) + unat g"
    using unat_add_lem [of "T - 1" g] by simp
  with t1 tpos show ?thesis by (simp add: unat_div)
qed

lemma ceil_mult_le:
  assumes "0 < (b::nat)"
  shows "b * ((a + b - 1) div b) \<le> a + b - 1"
  by simp

lemma ceil_div_int:
  assumes "0 < (b::int)"
  shows "\<lceil>real_of_int a / real_of_int b\<rceil> = (a + b - 1) div b"
proof (rule ceiling_unique)
  let ?q = "(a + b - 1) div b"
  have eq: "?q * b + (a + b - 1) mod b = a + b - 1"
    by simp
  have lo: "0 \<le> (a + b - 1) mod b" and hi: "(a + b - 1) mod b < b"
    using assms by simp_all
  have d: "(?q - 1) * b = ?q * b - b"
    by (simp add: algebra_simps)
  have i1: "(?q - 1) * b < a"
    using eq lo d by linarith
  have i2: "a \<le> ?q * b"
    using eq hi by linarith
  have "real_of_int ((?q - 1) * b) < real_of_int a"
    using i1 by (simp only: of_int_less_iff)
  then have "(real_of_int ?q - 1) * real_of_int b < real_of_int a"
    by simp
  then show "real_of_int ?q - 1 < real_of_int a / real_of_int b"
    using assms by (simp add: pos_less_divide_eq)
  have "real_of_int a \<le> real_of_int (?q * b)"
    using i2 by (simp only: of_int_le_iff)
  then have "real_of_int a \<le> real_of_int ?q * real_of_int b"
    by simp
  then show "real_of_int a / real_of_int b \<le> real_of_int ?q"
    using assms by (simp add: pos_divide_le_eq)
qed

lemma ceil_div_nat:
  assumes "0 < (b::nat)"
  shows "nat \<lceil>real a / real b\<rceil> = (a + b - 1) div b"
proof -
  have "\<lceil>real a / real b\<rceil> = \<lceil>real_of_int (int a) / real_of_int (int b)\<rceil>"
    by simp
  also have "\<dots> = (int a + int b - 1) div int b"
    using assms by (intro ceil_div_int) simp
  also have "\<dots> = int ((a + b - 1) div b)"
    using assms by (simp add: zdiv_int of_nat_diff)
  finally show ?thesis by simp
qed

lemma sint_in_range:
  fixes x :: int
  assumes "- (2 ^ 31) \<le> x" and "x < 2 ^ 31"
  shows "sint (word_of_int x :: 32 word) = x"
  using assms by (simp add: sint_sbintrunc' signed_take_bit_int_eq_self)

lemma sdiv_nonneg:
  fixes x y :: int
  assumes "0 \<le> x" and "0 < y"
  shows "x sdiv y = x div y"
  using assms by (cases "x = 0") (simp_all add: signed_divide_int_def)

lemma c_sdiv_round_up:
  fixes a b :: i32
  assumes b: "0 < sint b" and a: "0 \<le> sint a" and fit: "sint a + sint b \<le> 2 ^ 31"
  shows "sint (c_sdiv (a - 1 + b) b) = (sint a + sint b - 1) div sint b"
proof -
  have "a - 1 + b = word_of_int (sint a + sint b - 1)"
    by (simp add: algebra_simps)
  moreover have "sint (word_of_int (sint a + sint b - 1) :: 32 word) = sint a + sint b - 1"
    using a b fit by (intro sint_in_range) simp_all
  ultimately have s: "sint (a - 1 + b) = sint a + sint b - 1"
    by (simp only:)
  have nn: "0 \<le> sint a + sint b - 1"
    using a b by simp
  have d: "(sint a + sint b - 1) sdiv sint b = (sint a + sint b - 1) div sint b"
    using nn b by (rule sdiv_nonneg)
  have lo: "0 \<le> (sint a + sint b - 1) div sint b"
    using nn b by (simp add: pos_imp_zdiv_nonneg_iff)
  have "(sint a + sint b - 1) div sint b \<le> sint a + sint b - 1"
    using zdiv_mono2 [of "sint a + sint b - 1" 1 "sint b"] nn b by simp
  then have hi: "(sint a + sint b - 1) div sint b < 2 ^ 31"
    using fit by simp
  show ?thesis
    unfolding c_sdiv_def s d using lo hi by (intro sint_in_range) simp_all
qed

lemma uint_pos: "(s::32 word) \<noteq> 0 \<Longrightarrow> 0 < uint s"
  using uint_0_iff [of s] uint_ge_0 [of s] by linarith

lemma sint_add_uint:
  fixes r s :: "32 word"
  assumes "0 \<le> sint r" and "sint r + uint s < 2 ^ 31"
  shows "sint (r + s) = sint r + uint s"
proof -
  have "r + s = word_of_int (sint r + uint s)"
    by simp
  moreover have "sint (word_of_int (sint r + uint s) :: 32 word) = sint r + uint s"
  proof (rule sint_in_range)
    have "- (2 ^ 31) \<le> (0::int)"
      by simp
    also have "0 \<le> sint r + uint s"
      using assms(1) by (intro add_nonneg_nonneg) simp_all
    finally show "- (2 ^ 31) \<le> sint r + uint s" .
    show "sint r + uint s < 2 ^ 31"
      using assms(2) by simp
  qed
  ultimately show ?thesis by (simp only:)
qed

lemma strided_rows_returns:
  assumes st: "stride \<noteq> 0" and r0: "0 \<le> sint r" and fit: "uint stride + sint limit \<le> 2 ^ 31"
  shows "\<exists>rows. strided_rows stride limit r acc = Some (acc @ rows) \<and>
           (\<forall>x\<in>set rows. 0 \<le> sint x \<and> sint x < sint limit) \<and>
           (rows = [] \<longleftrightarrow> \<not> r <s limit) \<and>
           (r <s limit \<longrightarrow> hd rows = r)"
  using r0
proof (induction "nat (sint limit - sint r)" arbitrary: r acc rule: less_induct)
  case less
  show ?case
  proof (cases "r <s limit")
    case False
    have "strided_rows stride limit r acc = Some (acc @ [])"
      by (subst strided_rows.simps) (simp add: False)
    then show ?thesis
      using False by (intro exI [of _ "[]"]) simp
  next
    case True
    then have lt: "sint r < sint limit" by (simp add: word_sless_alt)
    have spos: "0 < uint stride" using st by (rule uint_pos)
    have s: "sint (r + stride) = sint r + uint stride"
      using less.prems lt fit by (intro sint_add_uint) simp_all
    have dec: "nat (sint limit - sint (r + stride)) < nat (sint limit - sint r)"
      using s spos lt by simp
    have nn: "0 \<le> sint (r + stride)"
      using s spos less.prems by simp
    obtain rows where
      a: "strided_rows stride limit (r + stride) (acc @ [r]) = Some ((acc @ [r]) @ rows)" and
      b: "\<forall>x\<in>set rows. 0 \<le> sint x \<and> sint x < sint limit"
      using less.hyps [OF dec nn, of "acc @ [r]"] by blast
    have "strided_rows stride limit r acc = Some (acc @ (r # rows))"
      by (subst strided_rows.simps) (simp add: True a)
    moreover have "\<forall>x\<in>set (r # rows). 0 \<le> sint x \<and> sint x < sint limit"
      using b lt less.prems by simp
    ultimately show ?thesis
      using True by (intro exI [of _ "r # rows"]) simp
  qed
qed

lemma sint_eq_uint:
  fixes w :: "32 word"
  assumes "uint w < 2 ^ 31"
  shows "sint w = uint w"
proof -
  have "sint (word_of_int (uint w) :: 32 word) = uint w"
    using assms by (intro sint_in_range) (simp_all add: order_trans [of _ 0])
  then show ?thesis by simp
qed

lemma launch_thread_nonneg:
  assumes "launch_ok sh li"
  shows "0 \<le> sint (threadIdx_x li)"
proof -
  have "uint (threadIdx_x li) < uint (blockDim_x li)"
    using assms by (simp add: launch_ok_def word_less_def)
  moreover have "uint (blockDim_x li) \<le> 2 ^ 31"
    using assms by (simp add: launch_ok_def)
  ultimately have "uint (threadIdx_x li) < 2 ^ 31"
    by simp
  then have "sint (threadIdx_x li) = uint (threadIdx_x li)"
    by (rule sint_eq_uint)
  then show ?thesis by simp
qed

lemma operator_call_returns:
  assumes ok: "launch_ok sh li" and cols: "mc_column (grid_shape sh p) \<noteq> 0"
  shows "\<exists>rows.
           (\<forall>x\<in>set rows. 0 \<le> sint x \<and> sint x < sint (kM sh)) \<and>
           (rows = [] \<longleftrightarrow> \<not> threadIdx_x li <s kM sh) \<and>
           (threadIdx_x li <s kM sh \<longrightarrow> hd rows = threadIdx_x li) \<and>
           operator_call sh li p =
             Some (Inr \<lparr> red_init = (if first_column sh li p \<noteq> 0 then rows else []),
                         prefetch = (if first_column sh li p \<noteq> 0
                                     then map (\<lambda>row_local.
                                            \<lparr> smem_index = row_local,
                                              gmem_index = sint (first_row sh li p) + sint row_local,
                                              guard = (first_row sh li p + row_local <s gc_m p) \<rparr>)
                                          rows
                                     else []),
                         tiles = map (tile_body sh p
                                       (problem_chunk_end (blockIdx_x li)
                                          (problem_chunk sh (gridDim_x li) p)))
                                   (map of_nat
                                     [unat (blockIdx_x li * problem_chunk sh (gridDim_x li) p) ..<
                                      unat (problem_chunk_end (blockIdx_x li)
                                              (problem_chunk sh (gridDim_x li) p))]) \<rparr>)"
proof -
  have g: "gridDim_x li \<noteq> 0" and bd: "blockDim_x li \<noteq> 0"
    and fit: "uint (blockDim_x li) + sint (kM sh) \<le> 2 ^ 31"
    using ok by (simp_all add: launch_ok_def)
  have t0: "0 \<le> sint (threadIdx_x li)"
    using ok by (rule launch_thread_nonneg)
  obtain rows where
    r: "strided_rows (blockDim_x li) (kM sh) (threadIdx_x li) [] = Some ([] @ rows)" and
    rb: "\<forall>x\<in>set rows. 0 \<le> sint x \<and> sint x < sint (kM sh)" and
    re: "rows = [] \<longleftrightarrow> \<not> threadIdx_x li <s kM sh" and
    rh: "threadIdx_x li <s kM sh \<longrightarrow> hd rows = threadIdx_x li"
    using strided_rows_returns [OF bd t0 fit, of "[]"] by blast
  let ?e = "problem_chunk_end (blockIdx_x li) (problem_chunk sh (gridDim_x li) p)"
  let ?s = "blockIdx_x li * problem_chunk sh (gridDim_x li) p"
  have tl: "tile_loop sh p ?e ?s = Inr (map (tile_body sh p ?e) (map of_nat [unat ?s ..< unat ?e]))"
    using cols by (rule tile_loop_eq)
  have call: "operator_call sh li p =
             Some (Inr \<lparr> red_init = (if first_column sh li p \<noteq> 0 then rows else []),
                         prefetch = (if first_column sh li p \<noteq> 0
                                     then map (\<lambda>row_local.
                                            \<lparr> smem_index = row_local,
                                              gmem_index = sint (first_row sh li p) + sint row_local,
                                              guard = (first_row sh li p + row_local <s gc_m p) \<rparr>)
                                          rows
                                     else []),
                         tiles = map (tile_body sh p ?e) (map of_nat [unat ?s ..< unat ?e]) \<rparr>)"
  proof (cases "first_column sh li p = 0")
    case True
    then show ?thesis
      unfolding operator_call_def Let_def tl using g cols by simp
  next
    case False
    then show ?thesis
      unfolding operator_call_def Let_def tl using g cols r by simp
  qed
  show ?thesis
    using rb re rh call by (intro exI [of _ rows] conjI)
qed

lemma chunk_positions:
  fixes g b :: u32
  assumes g: "g \<noteq> 0" and b: "b < g"
    and fit: "unat (tile_count (grid_shape sh p)) + unat g \<le> 2 ^ 32"
  shows "unat (problem_chunk sh g p) = (unat (tile_count (grid_shape sh p)) + unat g - 1) div unat g"
    and "unat (b * problem_chunk sh g p) =
           unat b * ((unat (tile_count (grid_shape sh p)) + unat g - 1) div unat g)"
    and "unat (problem_chunk_end b (problem_chunk sh g p)) =
           unat b * ((unat (tile_count (grid_shape sh p)) + unat g - 1) div unat g)
           + (unat (tile_count (grid_shape sh p)) + unat g - 1) div unat g"
proof -
  let ?T = "unat (tile_count (grid_shape sh p))"
  let ?c = "(?T + unat g - 1) div unat g"
  show c: "unat (problem_chunk sh g p) = ?c"
    unfolding problem_chunk_def using g fit by (rule chunk_unat)
  have gpos: "0 < unat g" using g by (simp add: unat_gt_0)
  have ub: "unat b < unat g" using b by (simp add: word_less_nat_alt)
  have "unat g * ?c \<le> ?T + unat g - 1"
    using gpos by (rule ceil_mult_le)
  moreover have "unat b * ?c + ?c \<le> unat g * ?c"
  proof -
    have "(unat b + 1) * ?c \<le> unat g * ?c"
      using ub by (intro mult_le_mono1) simp
    then show ?thesis by (simp add: algebra_simps)
  qed
  ultimately have le: "unat b * ?c + ?c \<le> ?T + unat g - 1"
    by (rule order_trans [rotated])
  then have lt: "unat b * ?c + ?c < 2 ^ 32"
    using fit gpos by simp
  have "unat b * unat (problem_chunk sh g p) < 2 ^ LENGTH(32)"
    using lt c by simp
  then show m: "unat (b * problem_chunk sh g p) = unat b * ?c"
    using unat_mult_lem [of b "problem_chunk sh g p"] c by simp
  have "unat (b * problem_chunk sh g p) + unat (problem_chunk sh g p) < 2 ^ LENGTH(32)"
    using lt c m by simp
  then show "unat (problem_chunk_end b (problem_chunk sh g p)) = unat b * ?c + ?c"
    unfolding problem_chunk_end_def
    using unat_add_lem [of "b * problem_chunk sh g p" "problem_chunk sh g p"] c m by simp
qed

lemma map_unat_of_nat_upt:
  assumes "n \<le> 2 ^ 32"
  shows "map (unat \<circ> (of_nat :: nat \<Rightarrow> u32)) [m ..< n] = [m ..< n]"
proof (rule map_idI)
  fix x assume "x \<in> set [m ..< n]"
  then have "x < 2 ^ 32" using assms by simp
  then show "(unat \<circ> (of_nat :: nat \<Rightarrow> u32)) x = x"
    by (simp add: unat_of_nat)
qed

lemma spec_chunk_size_eq:
  "0 < total_units \<Longrightarrow>
   spec_chunk_size total_tiles total_units = (total_tiles + total_units - 1) div total_units"
  unfolding spec_chunk_size_def by (rule ceil_div_nat)

lemma operator_call_tile_indices:
  assumes ok: "launch_ok sh li" and cols: "mc_column (grid_shape sh p) \<noteq> 0"
    and fit: "unat (tile_count (grid_shape sh p)) + unat (gridDim_x li) \<le> 2 ^ 32"
  shows "\<exists>tr. operator_call sh li p = Some (Inr tr) \<and>
           map (unat \<circ> tile_idx) (tiles tr) =
             [unat (blockIdx_x li)
                * spec_chunk_size (unat (tile_count (grid_shape sh p))) (unat (gridDim_x li)) ..<
              unat (blockIdx_x li)
                * spec_chunk_size (unat (tile_count (grid_shape sh p))) (unat (gridDim_x li))
              + spec_chunk_size (unat (tile_count (grid_shape sh p))) (unat (gridDim_x li))]"
proof -
  let ?g = "gridDim_x li" and ?b = "blockIdx_x li"
  let ?T = "unat (tile_count (grid_shape sh p))"
  let ?c = "(?T + unat ?g - 1) div unat ?g"
  let ?chunk = "problem_chunk sh ?g p"
  have g: "?g \<noteq> 0" and b: "?b < ?g"
    using ok by (simp_all add: launch_ok_def)
  have gpos: "0 < unat ?g" using g by (simp add: unat_gt_0)
  have sc: "spec_chunk_size ?T (unat ?g) = ?c"
    using gpos by (rule spec_chunk_size_eq)
  have st: "unat (?b * ?chunk) = unat ?b * ?c"
    and en: "unat (problem_chunk_end ?b ?chunk) = unat ?b * ?c + ?c"
    using chunk_positions [OF g b fit] by simp_all
  have "unat (problem_chunk_end ?b ?chunk) < 2 ^ 32"
    using unsigned_less [of "problem_chunk_end ?b ?chunk", where 'a = nat] by simp
  then have le: "unat ?b * ?c + ?c \<le> 2 ^ 32"
    using en by simp
  obtain ri pf where
    "operator_call sh li p =
       Some (Inr \<lparr> red_init = ri, prefetch = pf,
                   tiles = map (tile_body sh p (problem_chunk_end ?b ?chunk))
                     (map of_nat [unat (?b * ?chunk) ..< unat (problem_chunk_end ?b ?chunk)]) \<rparr>)"
    using operator_call_returns [OF ok cols] by blast
  then obtain tr where
    r: "operator_call sh li p = Some (Inr tr)" and
    t: "tiles tr = map (tile_body sh p (problem_chunk_end ?b ?chunk))
                     (map of_nat [unat (?b * ?chunk) ..< unat (problem_chunk_end ?b ?chunk)])"
    by simp
  have ti: "tile_idx \<circ> tile_body sh p e = id" for e
    by (rule ext) (simp add: tile_body_def Let_def)
  have "map (unat \<circ> tile_idx) (tiles tr) =
          map (unat \<circ> (of_nat :: nat \<Rightarrow> u32)) [unat ?b * ?c ..< unat ?b * ?c + ?c]"
    unfolding t st en by (simp add: tile_body_def Let_def comp_def)
  also have "\<dots> = [unat ?b * ?c ..< unat ?b * ?c + ?c]"
    using le by (rule map_unat_of_nat_upt)
  finally have "map (unat \<circ> tile_idx) (tiles tr) = [unat ?b * ?c ..< unat ?b * ?c + ?c]" .
  then show ?thesis
    unfolding sc using r by (intro exI [of _ tr] conjI)
qed

text \<open>Tile grids of the examples.\<close>

lemma ex_grid_8_4: "grid_shape \<lparr>kM = 4, kN = 4, kK = 4\<rparr> \<lparr>gc_m = 8, gc_n = 4, gc_k = 2\<rparr> = \<lparr>mc_row = 2, mc_column = 1\<rparr>"
  by (simp add: grid_shape_def c_sdiv_def signed_divide_int_def)

lemma ex_grid_8_8: "grid_shape \<lparr>kM = 4, kN = 4, kK = 4\<rparr> \<lparr>gc_m = 8, gc_n = 8, gc_k = 2\<rparr> = \<lparr>mc_row = 2, mc_column = 2\<rparr>"
  by (simp add: grid_shape_def c_sdiv_def signed_divide_int_def)

lemma ceil_mult_ge:
  assumes "0 < (b::nat)"
  shows "a \<le> b * ((a + b - 1) div b)"
proof -
  have "(a + b - 1) mod b < b"
    using assms by simp
  moreover have "b * ((a + b - 1) div b) + (a + b - 1) mod b = a + b - 1"
    by simp
  ultimately show ?thesis
    by linarith
qed

lemma unique_chunk:
  fixes c :: nat
  assumes t: "t < T" and cov: "T \<le> U * c"
  shows "\<exists>!u. u < U \<and> t \<in> set [u * c ..< u * c + c]"
proof -
  have cpos: "0 < c"
    using t cov by (cases c) simp_all
  have "t div c < U"
  proof -
    have "t < c * U" using t cov by (simp add: mult.commute)
    then show ?thesis
      using cpos by (simp add: less_mult_imp_div_less mult.commute)
  qed
  moreover have "t \<in> set [(t div c) * c ..< (t div c) * c + c]"
  proof -
    have "(t div c) * c \<le> t" by simp
    moreover have "t < (t div c) * c + c"
      using cpos dividend_less_div_times [of c t] by (simp add: mult.commute)
    ultimately show ?thesis by simp
  qed
  moreover have "u = t div c" if "u < U \<and> t \<in> set [u * c ..< u * c + c]" for u
  proof -
    have "c * u \<le> t" and "t < c * Suc u"
      using that by (simp_all add: mult.commute)
    then show ?thesis
      by (rule div_nat_eqI [symmetric])
  qed
  ultimately show ?thesis
    by blast
qed

lemma launch_ok_unit:
  assumes ok: "launch_ok sh li" and u: "u < unat (gridDim_x li)"
  shows "launch_ok sh (li\<lparr>blockIdx_x := of_nat u\<rparr>)"
    and "unat (blockIdx_x (li\<lparr>blockIdx_x := of_nat u\<rparr>)) = u"
proof -
  have "unat (gridDim_x li) < 2 ^ 32"
    using unsigned_less [of "gridDim_x li", where 'a = nat] by simp
  then have "u < 2 ^ 32" using u by simp
  then have un: "unat (of_nat u :: u32) = u"
    by (simp add: unat_of_nat)
  then show "unat (blockIdx_x (li\<lparr>blockIdx_x := of_nat u\<rparr>)) = u"
    by simp
  have "(of_nat u :: u32) < gridDim_x li"
    using u un by (simp add: word_less_nat_alt)
  then show "launch_ok sh (li\<lparr>blockIdx_x := of_nat u\<rparr>)"
    using ok by (simp add: launch_ok_def)
qed

lemma iterated_tiles_unit:
  assumes ok: "launch_ok sh li" and cols: "mc_column (grid_shape sh p) \<noteq> 0"
    and fit: "unat (tile_count (grid_shape sh p)) + unat (gridDim_x li) \<le> 2 ^ 32"
    and u: "u < unat (gridDim_x li)"
  shows "\<exists>tr. operator_call sh (li\<lparr>blockIdx_x := of_nat u\<rparr>) p = Some (Inr tr)"
    and "iterated_tiles (operator_call sh (li\<lparr>blockIdx_x := of_nat u\<rparr>) p) =
           [u * spec_chunk_size (unat (tile_count (grid_shape sh p))) (unat (gridDim_x li)) ..<
            u * spec_chunk_size (unat (tile_count (grid_shape sh p))) (unat (gridDim_x li))
            + spec_chunk_size (unat (tile_count (grid_shape sh p))) (unat (gridDim_x li))]"
proof -
  let ?li = "li\<lparr>blockIdx_x := of_nat u\<rparr>"
  have ok': "launch_ok sh ?li" and bu: "unat (blockIdx_x ?li) = u"
    using launch_ok_unit [OF ok u] by simp_all
  have fit': "unat (tile_count (grid_shape sh p)) + unat (gridDim_x ?li) \<le> 2 ^ 32"
    using fit by simp
  obtain tr where r: "operator_call sh ?li p = Some (Inr tr)"
    and t: "map (unat \<circ> tile_idx) (tiles tr) =
             [unat (blockIdx_x ?li)
                * spec_chunk_size (unat (tile_count (grid_shape sh p))) (unat (gridDim_x ?li)) ..<
              unat (blockIdx_x ?li)
                * spec_chunk_size (unat (tile_count (grid_shape sh p))) (unat (gridDim_x ?li))
              + spec_chunk_size (unat (tile_count (grid_shape sh p))) (unat (gridDim_x ?li))]"
    using operator_call_tile_indices [OF ok' cols fit'] by blast
  show "\<exists>tr. operator_call sh ?li p = Some (Inr tr)"
    using r by blast
  have g: "gridDim_x ?li = gridDim_x li" by simp
  show "iterated_tiles (operator_call sh ?li p) =
           [u * spec_chunk_size (unat (tile_count (grid_shape sh p))) (unat (gridDim_x li)) ..<
            u * spec_chunk_size (unat (tile_count (grid_shape sh p))) (unat (gridDim_x li))
            + spec_chunk_size (unat (tile_count (grid_shape sh p))) (unat (gridDim_x li))]"
    using t unfolding iterated_tiles_def r bu g by simp
qed

lemma sint_zero_iff: "sint (w :: 32 word) = 0 \<longleftrightarrow> w = 0"
proof
  assume "sint w = 0"
  then have "word_of_int (sint w) = (word_of_int 0 :: 32 word)" by simp
  then show "w = 0" by simp
qed simp

lemma c_sdiv_zero_extent:
  fixes b :: i32
  assumes "0 < sint b"
  shows "c_sdiv (0 - 1 + b) b = 0"
proof -
  have "sint b < 2 ^ 31"
    using sint_lt [of b] by simp
  then have "sint (0 :: i32) + sint b \<le> 2 ^ 31"
    by simp
  then have "sint (c_sdiv (0 - 1 + b) b) = (sint (0 :: i32) + sint b - 1) div sint b"
    using assms by (intro c_sdiv_round_up) simp_all
  also have "\<dots> = 0"
    using assms by simp
  finally show ?thesis
    by (simp only: sint_zero_iff)
qed

lemma no_tiles:
  assumes kM: "0 < sint (kM sh)" and kN: "0 < sint (kN sh)"
    and z: "gc_m p = 0 \<or> gc_n p = 0"
  shows "tile_count (grid_shape sh p) = 0"
  using z
proof
  assume "gc_m p = 0"
  then have "mc_row (grid_shape sh p) = 0"
    using c_sdiv_zero_extent [OF kM] by (simp add: grid_shape_def)
  then show ?thesis by (simp add: tile_count_def)
next
  assume "gc_n p = 0"
  then have "mc_column (grid_shape sh p) = 0"
    using c_sdiv_zero_extent [OF kN] by (simp add: grid_shape_def)
  then show ?thesis by (simp add: tile_count_def)
qed

lemma pred_div_self:
  fixes g :: u32
  assumes "g \<noteq> 0"
  shows "(g - 1) div g = 0"
proof -
  have "unat (g - 1) < unat g"
    using assms by (rule measure_unat)
  then have "unat ((g - 1) div g) = 0"
    by (simp add: unat_div)
  then show ?thesis
    by (simp add: unat_eq_0)
qed

lemma tile_loop_empty: "\<not> t < e \<Longrightarrow> tile_loop sh p e t = Inr []"
  by (subst tile_loop.simps) simp

lemma grid_extent:
  fixes a b :: i32
  assumes b: "0 < sint b" and a: "1 \<le> sint a" and fit: "sint a + sint b \<le> 2 ^ 31"
  shows "sint (c_sdiv (a - 1 + b) b) = \<lceil>real_of_int (sint a) / real_of_int (sint b)\<rceil>"
    and "1 \<le> sint (c_sdiv (a - 1 + b) b)"
    and "c_sdiv (a - 1 + b) b \<noteq> 0"
proof -
  have a0: "0 \<le> sint a" using a by simp
  have e: "sint (c_sdiv (a - 1 + b) b) = (sint a + sint b - 1) div sint b"
    using b a0 fit by (rule c_sdiv_round_up)
  show "sint (c_sdiv (a - 1 + b) b) = \<lceil>real_of_int (sint a) / real_of_int (sint b)\<rceil>"
    unfolding e using b by (rule ceil_div_int [symmetric])
  have "sint b div sint b \<le> (sint a + sint b - 1) div sint b"
    using a b by (intro zdiv_mono1) simp_all
  then show one: "1 \<le> sint (c_sdiv (a - 1 + b) b)"
    unfolding e using b by simp
  show "c_sdiv (a - 1 + b) b \<noteq> 0"
  proof
    assume "c_sdiv (a - 1 + b) b = 0"
    then have "sint (c_sdiv (a - 1 + b) b) = 0" by simp
    with one show False by simp
  qed
qed

lemma operator_call_no_div0:
  assumes g: "gridDim_x li \<noteq> 0" and cols: "mc_column (grid_shape sh p) \<noteq> 0"
  shows "operator_call sh li p \<noteq> Some (Inl DivideByZero)"
proof -
  let ?e = "problem_chunk_end (blockIdx_x li) (problem_chunk sh (gridDim_x li) p)"
  let ?s = "blockIdx_x li * problem_chunk sh (gridDim_x li) p"
  have tl: "tile_loop sh p ?e ?s = Inr (map (tile_body sh p ?e) (map of_nat [unat ?s ..< unat ?e]))"
    using cols by (rule tile_loop_eq)
  show ?thesis
  proof (cases "first_column sh li p = 0")
    case True
    then show ?thesis
      unfolding operator_call_def Let_def tl using g cols by simp
  next
    case False
    show ?thesis
    proof (cases "strided_rows (blockDim_x li) (kM sh) (threadIdx_x li) []")
      case None
      then show ?thesis
        unfolding operator_call_def Let_def tl using g cols False by simp
    next
      case (Some rows)
      then show ?thesis
        unfolding operator_call_def Let_def tl using g cols False by simp
    qed
  qed
qed

lemma unat_eq_nat_sint:
  fixes w :: "32 word"
  assumes "0 \<le> sint w"
  shows "int (unat w) = sint w"
proof -
  have lt: "sint w < 2 ^ 32"
    using sint_lt [of w] by simp
  have a: "uint (word_of_int (sint w) :: 32 word) = take_bit LENGTH(32) (sint w)"
    by (rule uint_word_of_int_eq)
  have b: "(word_of_int (sint w) :: 32 word) = w"
    by simp
  have c: "take_bit LENGTH(32) (sint w) = sint w"
    using assms lt by (simp add: take_bit_int_eq_self)
  from a b c have "uint w = sint w"
    by (simp only:)
  then show ?thesis
    by simp
qed

text \<open>The column offset of a tile and the test \<open>doesRowChange\<close>, as integers.\<close>

lemma column_offset:
  fixes t :: u32
  assumes kN: "0 < sint (kN sh)" and N: "1 \<le> sint (gc_n p)"
    and fitN: "sint (gc_n p) + sint (kN sh) \<le> 2 ^ 31"
  defines "cols \<equiv> mc_column (grid_shape sh p)"
  shows "int (unat cols) = (sint (gc_n p) + sint (kN sh) - 1) div sint (kN sh)"
    and "sint ((t mod cols) * kN sh) = int (unat t mod unat cols) * sint (kN sh)"
    and "sint ((t mod cols) * kN sh + kN sh) = int (unat t mod unat cols) * sint (kN sh) + sint (kN sh)"
    and "int (unat t mod unat cols) * sint (kN sh) < sint (gc_n p)"
proof -
  let ?N = "sint (gc_n p)" and ?k = "sint (kN sh)"
  let ?C = "(?N + ?k - 1) div ?k"
  let ?j = "unat t mod unat cols"
  have N0: "0 \<le> ?N" using N by simp
  have sc: "sint cols = ?C"
    unfolding cols_def grid_shape_def using c_sdiv_round_up [OF kN N0 fitN] by simp
  have C1: "1 \<le> ?C"
    using grid_extent(2) [OF kN N fitN] c_sdiv_round_up [OF kN N0 fitN] by simp
  have "0 \<le> sint cols" using sc C1 by simp
  then have "int (unat cols) = sint cols"
    by (rule unat_eq_nat_sint)
  with sc show uc: "int (unat cols) = ?C"
    by (simp only:)
  have cpos: "0 < unat cols" using uc C1 by linarith
  have "?j < unat cols" using cpos by (rule mod_less_divisor)
  then have "int ?j + 1 \<le> int (unat cols)" by linarith
  with uc have jC: "int ?j + 1 \<le> ?C" by (simp only:)
  have "?C * ?k + (?N + ?k - 1) mod ?k = ?N + ?k - 1"
    by simp
  moreover have "0 \<le> (?N + ?k - 1) mod ?k"
    using kN by simp
  ultimately have Ck: "?C * ?k \<le> ?N + ?k - 1"
    by linarith
  have "(int ?j + 1) * ?k \<le> ?C * ?k"
    using jC kN by (intro mult_right_mono) simp_all
  moreover have "(int ?j + 1) * ?k = int ?j * ?k + ?k"
    by (simp add: distrib_right)
  ultimately have jk: "int ?j * ?k + ?k \<le> ?N + ?k - 1"
    using Ck by linarith
  then show lt: "int ?j * ?k < ?N" by linarith
  have nn: "0 \<le> int ?j * ?k"
    using kN by (intro mult_nonneg_nonneg) simp_all
  have neg: "- (2 ^ 31) \<le> (0 :: int)" by simp
  have e1: "(of_nat ?j :: u32) = t mod cols"
    by (rule word_arith_nat_mod [symmetric])
  have e2: "(word_of_int ?k :: u32) = kN sh"
    by simp
  have "word_of_int (int ?j * ?k) = (of_nat ?j :: u32) * word_of_int ?k"
    by (simp only: wi_hom_mult [symmetric] of_int_of_nat_eq)
  then have w: "(t mod cols) * kN sh = word_of_int (int ?j * ?k)"
    by (simp only: e1 e2)
  show s1: "sint ((t mod cols) * kN sh) = int ?j * ?k"
    unfolding w
  proof (rule sint_in_range)
    show "- (2 ^ 31) \<le> int ?j * ?k" using neg nn by (rule order_trans)
    show "int ?j * ?k < 2 ^ 31" using lt fitN kN by linarith
  qed
  have "word_of_int (int ?j * ?k + ?k) = word_of_int (int ?j * ?k) + (word_of_int ?k :: u32)"
    by (simp only: wi_hom_add)
  then have w2: "(t mod cols) * kN sh + kN sh = word_of_int (int ?j * ?k + ?k)"
    by (simp only: w e2)
  show "sint ((t mod cols) * kN sh + kN sh) = int ?j * ?k + ?k"
    unfolding w2
  proof (rule sint_in_range)
    have "0 \<le> int ?j * ?k + ?k" using nn kN by linarith
    with neg show "- (2 ^ 31) \<le> int ?j * ?k + ?k" by (rule order_trans)
    show "int ?j * ?k + ?k < 2 ^ 31" using jk fitN by linarith
  qed
qed

lemma next_tile_iff:
  fixes t e :: u32
  assumes "t < e"
  shows "t + 1 < e \<longleftrightarrow> Suc (unat t) < unat e"
  using unat_succ_less [OF assms] by (simp add: word_less_nat_alt)

lemma operator_call_tiles:
  assumes ok: "launch_ok sh li" and cols: "mc_column (grid_shape sh p) \<noteq> 0"
  defines "s \<equiv> blockIdx_x li * problem_chunk sh (gridDim_x li) p"
    and "e \<equiv> problem_chunk_end (blockIdx_x li) (problem_chunk sh (gridDim_x li) p)"
  shows "\<exists>tr. operator_call sh li p = Some (Inr tr) \<and>
           length (tiles tr) = unat e - unat s \<and>
           (\<forall>i < length (tiles tr).
              tiles tr ! i = tile_body sh p e (s + of_nat i) \<and>
              unat (s + of_nat i) = unat s + i \<and>
              s + of_nat i < e)"
proof -
  obtain ri pf where
    "operator_call sh li p =
       Some (Inr \<lparr> red_init = ri, prefetch = pf,
                   tiles = map (tile_body sh p e) (map of_nat [unat s ..< unat e]) \<rparr>)"
    unfolding s_def e_def using operator_call_returns [OF ok cols] by blast
  then obtain tr where
    r: "operator_call sh li p = Some (Inr tr)" and
    t: "tiles tr = map (tile_body sh p e) (map of_nat [unat s ..< unat e])"
    by simp
  have len: "length (tiles tr) = unat e - unat s"
    unfolding t by simp
  have "tiles tr ! i = tile_body sh p e (s + of_nat i) \<and>
        unat (s + of_nat i) = unat s + i \<and> s + of_nat i < e"
    if i: "i < length (tiles tr)" for i
  proof -
    have ie: "unat s + i < unat e" using i len by simp
    have "unat e < 2 ^ 32"
      using unsigned_less [of e, where 'a = nat] by simp
    then have lt: "unat s + i < 2 ^ 32" using ie by simp
    have w: "(of_nat (unat s + i) :: u32) = s + of_nat i"
      by simp
    have "unat (of_nat (unat s + i) :: u32) = (unat s + i) mod 2 ^ LENGTH(32)"
      by (rule unat_of_nat)
    then have un: "unat (s + of_nat i) = unat s + i"
      unfolding w using lt by simp
    have "s + of_nat i < e"
      using un ie by (simp add: word_less_nat_alt)
    moreover have "tiles tr ! i = tile_body sh p e (of_nat (unat s + i))"
      unfolding t using i len by (simp del: of_nat_add)
    ultimately show ?thesis using un unfolding w by simp
  qed
  with r len show ?thesis by blast
qed

lemma tile_body_flush:
  fixes t e :: u32
  assumes kN: "0 < sint (kN sh)" and N: "1 \<le> sint (gc_n p)"
    and fitN: "sint (gc_n p) + sint (kN sh) \<le> 2 ^ 31"
    and t: "t < e"
  shows "do_gmem_reduce (tile_body sh p e t) \<longleftrightarrow>
           sint (gc_n p) \<le> sint (mc_column (threadblock_offset (tile_body sh p e t))) + sint (kN sh)
           \<or> Suc (unat t) = unat e"
    and "doesRowChange (tile_body sh p e t) \<longleftrightarrow>
           sint (gc_n p) \<le> sint (mc_column (threadblock_offset (tile_body sh p e t))) + sint (kN sh)"
proof -
  let ?cols = "mc_column (grid_shape sh p)"
  have c1: "sint ((t mod ?cols) * kN sh) = int (unat t mod unat ?cols) * sint (kN sh)"
    and c2: "sint ((t mod ?cols) * kN sh + kN sh)
               = int (unat t mod unat ?cols) * sint (kN sh) + sint (kN sh)"
    using column_offset(2,3) [OF kN N fitN, where t = t] by simp_all
  have ut: "unat t < unat e" using t by (simp add: word_less_nat_alt)
  have nx: "\<not> t + 1 < e \<longleftrightarrow> Suc (unat t) = unat e"
    using next_tile_iff [OF t] ut by auto
  show "doesRowChange (tile_body sh p e t) \<longleftrightarrow>
           sint (gc_n p) \<le> sint (mc_column (threadblock_offset (tile_body sh p e t))) + sint (kN sh)"
    by (simp add: tile_body_def Let_def word_sle_eq c1 c2)
  then show "do_gmem_reduce (tile_body sh p e t) \<longleftrightarrow>
           sint (gc_n p) \<le> sint (mc_column (threadblock_offset (tile_body sh p e t))) + sint (kN sh)
           \<or> Suc (unat t) = unat e"
    using nx by (simp add: tile_body_def Let_def)
qed

lemma last_column_iff:
  assumes kN: "0 < sint (kN sh)" and N: "1 \<le> sint (gc_n p)"
    and fitN: "sint (gc_n p) + sint (kN sh) \<le> 2 ^ 31"
    and j: "j < unat (mc_column (grid_shape sh p))"
  shows "sint (gc_n p) \<le> int j * sint (kN sh) + sint (kN sh)
           \<longleftrightarrow> Suc j = unat (mc_column (grid_shape sh p))"
proof -
  let ?N = "sint (gc_n p)" and ?k = "sint (kN sh)"
  let ?cols = "mc_column (grid_shape sh p)"
  let ?C = "(?N + ?k - 1) div ?k"
  have uc: "int (unat ?cols) = ?C"
    using column_offset(1) [OF kN N fitN] .
  have eq: "?C * ?k + (?N + ?k - 1) mod ?k = ?N + ?k - 1"
    by simp
  have m0: "0 \<le> (?N + ?k - 1) mod ?k" and m1: "(?N + ?k - 1) mod ?k < ?k"
    using kN by simp_all
  have lo: "?C * ?k \<le> ?N + ?k - 1" using eq m0 by linarith
  have hi: "?N \<le> ?C * ?k" using eq m1 by linarith
  have d1: "(int j + 1) * ?k = int j * ?k + ?k"
    by (simp add: distrib_right)
  show ?thesis
  proof
    assume "Suc j = unat ?cols"
    then have "int j + 1 = int (unat ?cols)" by linarith
    with uc have "int j + 1 = ?C" by (simp only:)
    then have "(int j + 1) * ?k = ?C * ?k" by (simp only:)
    with d1 hi show "?N \<le> int j * ?k + ?k" by linarith
  next
    assume a: "?N \<le> int j * ?k + ?k"
    show "Suc j = unat ?cols"
    proof (rule ccontr)
      assume "Suc j \<noteq> unat ?cols"
      with j have "int j + 2 \<le> int (unat ?cols)" by linarith
      with uc have "int j + 2 \<le> ?C" by (simp only:)
      then have "(int j + 2) * ?k \<le> ?C * ?k"
        using kN by (intro mult_right_mono) simp_all
      moreover have "(int j + 2) * ?k = int j * ?k + ?k + ?k"
        by (simp add: distrib_right)
      ultimately show False
        using lo a kN by linarith
    qed
  qed
qed

lemma row_offset_step:
  fixes t cols k :: u32
  assumes c: "cols \<noteq> 0" and k: "k \<noteq> 0" and nw: "unat (t + 1) = Suc (unat t)"
  shows "((t + 1) div cols) * k \<noteq> (t div cols) * k \<longleftrightarrow> Suc (unat t mod unat cols) = unat cols"
proof -
  let ?C = "unat cols"
  have cpos: "0 < ?C" using c by (simp add: unat_gt_0)
  have d: "unat ((t + 1) div cols) = Suc (unat t) div ?C" and d0: "unat (t div cols) = unat t div ?C"
    using nw by (simp_all add: unat_div)
  show ?thesis
  proof (cases "Suc (unat t mod ?C) = ?C")
    case True
    then have "Suc (unat t) mod ?C = 0"
      by (simp add: mod_Suc)
    then have "Suc (unat t) div ?C = Suc (unat t div ?C)"
      by (simp add: div_Suc)
    then have "unat ((t + 1) div cols) = Suc (unat (t div cols))"
      using d d0 by simp
    then have "(of_nat (unat ((t + 1) div cols)) :: u32) = of_nat (Suc (unat (t div cols)))"
      by (simp only:)
    then have "(t + 1) div cols = t div cols + 1"
      by simp
    then have "((t + 1) div cols) * k = (t div cols) * k + k"
      by (simp add: distrib_right)
    with k True show ?thesis by simp
  next
    case False
    then have "Suc (unat t) mod ?C \<noteq> 0"
      using cpos by (simp add: mod_Suc)
    then have "Suc (unat t) div ?C = unat t div ?C"
      by (simp add: div_Suc)
    then have "unat ((t + 1) div cols) = unat (t div cols)"
      using d d0 by simp
    then have "(t + 1) div cols = t div cols"
      by (simp add: word_unat_eq_iff)
    with False show ?thesis by simp
  qed
qed

lemma tile_body_fields:
  "tile_idx (tile_body sh p e t) = t"
  "mc_row (threadblock_offset (tile_body sh p e t)) = (t div mc_column (grid_shape sh p)) * kM sh"
  "mc_column (threadblock_offset (tile_body sh p e t)) = (t mod mc_column (grid_shape sh p)) * kN sh"
  by (simp_all add: tile_body_def Let_def)

lemma sint_pos_nonzero: "0 < sint (w :: 32 word) \<Longrightarrow> w \<noteq> 0"
  by auto



lemma ex_grid_4_20: "grid_shape \<lparr>kM = 4, kN = 4, kK = 4\<rparr> \<lparr>gc_m = 4, gc_n = 20, gc_k = 2\<rparr> = \<lparr>mc_row = 1, mc_column = 5\<rparr>"
  by (simp add: grid_shape_def c_sdiv_def signed_divide_int_def)

lemma align_up_ge: "0 < a \<Longrightarrow> x \<le> align_up x a"
  unfolding align_up_def using ceil_mult_ge [of a x] by (simp add: mult.commute)

lemma union_below_persistent:
  assumes a1: "0 < ty_align (Mma_SharedStorage ts)"
    and a3: "0 < ty_align (TensorTileIterator_SharedStorage ts)"
    and a4: "0 < ty_align (OutputTileIterator_SharedStorage ts)"
    and mb: "mb = main_loop \<or> mb = epilogue"
  shows "member_offset ts mb + member_size ts mb \<le> member_offset ts reduced_store"
    and "member_offset ts reduced_store + member_size ts reduced_store
           \<le> member_offset ts rownorm_store"
proof -
  let ?m = "max (ty_size (Mma_SharedStorage ts)) (ty_size (Epilogue_SharedStorage ts))"
  have "0 < max (ty_align (Mma_SharedStorage ts)) (ty_align (Epilogue_SharedStorage ts))"
    using a1 by simp
  then have "?m \<le> kernel_size ts"
    unfolding kernel_size_def by (rule align_up_ge)
  moreover have "kernel_size ts \<le> member_offset ts reduced_store"
    using align_up_ge [OF a3] by (simp add: member_offset_def)
  moreover have "member_offset ts mb + member_size ts mb \<le> ?m"
    using mb by (auto simp: member_offset_def member_size_def)
  ultimately show "member_offset ts mb + member_size ts mb \<le> member_offset ts reduced_store"
    by linarith
  show "member_offset ts reduced_store + member_size ts reduced_store
          \<le> member_offset ts rownorm_store"
    using align_up_ge [OF a4] by (simp add: member_offset_def member_size_def)
qed

lemma read_member_update:
  assumes "a < member_offset ts mb \<or> member_offset ts mb + member_size ts mb \<le> a"
  shows "read_member ts mb (s (a := v)) = read_member ts mb s"
  unfolding read_member_def using assms by (intro map_cong) auto

lemma operator_call_no_columns:
  assumes g: "gridDim_x li \<noteq> 0" and kN: "0 < sint (kN sh)" and n: "gc_n p = 0"
  shows "operator_call sh li p = Some (Inl DivideByZero)"
proof -
  have "mc_column (grid_shape sh p) = 0"
    using n c_sdiv_zero_extent [OF kN] by (simp add: grid_shape_def)
  then show ?thesis
    using g by (simp add: operator_call_def Let_def)
qed

lemma operator_call_no_tiles:
  assumes g: "gridDim_x li \<noteq> 0" and cols: "mc_column (grid_shape sh p) \<noteq> 0"
    and c: "problem_chunk sh (gridDim_x li) p = 0"
  shows "operator_call sh li p = Some (Inr \<lparr>red_init = [], prefetch = [], tiles = []\<rparr>)"
proof -
  have fc: "first_column sh li p = 0"
    by (simp add: first_column_def c)
  have tl: "tile_loop sh p (problem_chunk_end (blockIdx_x li) 0) (blockIdx_x li * 0) = Inr []"
    by (rule tile_loop_empty) (simp add: problem_chunk_end_def)
  show ?thesis
    unfolding operator_call_def Let_def c fc tl using g cols by simp
qed

lemma flush_rule_by_index:
  assumes ok: "launch_ok sh li" and kN: "0 < sint (kN sh)" and N: "1 \<le> sint (gc_n p)"
    and fitN: "sint (gc_n p) + sint (kN sh) \<le> 2 ^ 31"
  shows "\<exists>tr. operator_call sh li p = Some (Inr tr) \<and>
           length (tiles tr) =
             unat (problem_chunk_end (blockIdx_x li) (problem_chunk sh (gridDim_x li) p))
             - unat (blockIdx_x li * problem_chunk sh (gridDim_x li) p) \<and>
           (\<forall>i < length (tiles tr).
              tile_idx (tiles tr ! i) = blockIdx_x li * problem_chunk sh (gridDim_x li) p + of_nat i \<and>
              unat (tile_idx (tiles tr ! i)) =
                unat (blockIdx_x li * problem_chunk sh (gridDim_x li) p) + i \<and>
              mc_column (threadblock_offset (tiles tr ! i)) =
                (tile_idx (tiles tr ! i) mod mc_column (grid_shape sh p)) * kN sh \<and>
              sint (mc_column (threadblock_offset (tiles tr ! i))) =
                int (unat (tile_idx (tiles tr ! i)) mod unat (mc_column (grid_shape sh p)))
                  * sint (kN sh) \<and>
              (do_gmem_reduce (tiles tr ! i) \<longleftrightarrow>
                 sint (gc_n p) \<le> sint (mc_column (threadblock_offset (tiles tr ! i))) + sint (kN sh)
                 \<or> i = length (tiles tr) - 1) \<and>
              (do_gmem_reduce (tiles tr ! i) \<longleftrightarrow>
                 Suc (unat (tile_idx (tiles tr ! i)) mod unat (mc_column (grid_shape sh p)))
                   = unat (mc_column (grid_shape sh p))
                 \<or> i = length (tiles tr) - 1))"
proof -
  let ?s = "blockIdx_x li * problem_chunk sh (gridDim_x li) p"
  let ?e = "problem_chunk_end (blockIdx_x li) (problem_chunk sh (gridDim_x li) p)"
  let ?cols = "mc_column (grid_shape sh p)"
  have cols: "?cols \<noteq> 0"
    using grid_extent(3) [OF kN N fitN] by (simp add: grid_shape_def)
  have cpos: "0 < unat ?cols" using cols by (simp add: unat_gt_0)
  obtain tr where r: "operator_call sh li p = Some (Inr tr)"
    and len: "length (tiles tr) = unat ?e - unat ?s"
    and nth: "\<forall>i < length (tiles tr).
              tiles tr ! i = tile_body sh p ?e (?s + of_nat i) \<and>
              unat (?s + of_nat i) = unat ?s + i \<and> ?s + of_nat i < ?e"
    using operator_call_tiles [OF ok cols] by blast
  have A: "tile_idx (tiles tr ! i) = ?s + of_nat i \<and>
        unat (tile_idx (tiles tr ! i)) = unat ?s + i \<and>
        mc_column (threadblock_offset (tiles tr ! i)) = (tile_idx (tiles tr ! i) mod ?cols) * kN sh \<and>
        sint (mc_column (threadblock_offset (tiles tr ! i))) =
          int (unat (tile_idx (tiles tr ! i)) mod unat ?cols) * sint (kN sh) \<and>
        (do_gmem_reduce (tiles tr ! i) \<longleftrightarrow>
           sint (gc_n p) \<le> sint (mc_column (threadblock_offset (tiles tr ! i))) + sint (kN sh)
           \<or> i = length (tiles tr) - 1) \<and>
        (do_gmem_reduce (tiles tr ! i) \<longleftrightarrow>
           Suc (unat (tile_idx (tiles tr ! i)) mod unat ?cols) = unat ?cols
           \<or> i = length (tiles tr) - 1)"
    if i: "i < length (tiles tr)" for i
  proof -
    let ?t = "?s + of_nat i"
    have b: "tiles tr ! i = tile_body sh p ?e ?t"
      and u: "unat ?t = unat ?s + i" and lt: "?t < ?e"
      using nth i by blast+
    have last: "Suc (unat ?t) = unat ?e \<longleftrightarrow> i = length (tiles tr) - 1"
      using u i len by auto
    have c: "sint ((?t mod ?cols) * kN sh) = int (unat ?t mod unat ?cols) * sint (kN sh)"
      using column_offset(2) [OF kN N fitN, where t = ?t] by simp
    have j: "unat ?t mod unat ?cols < unat ?cols"
      using cpos by (rule mod_less_divisor)
    have f1: "do_gmem_reduce (tile_body sh p ?e ?t) \<longleftrightarrow>
               sint (gc_n p) \<le> sint ((?t mod ?cols) * kN sh) + sint (kN sh)
               \<or> i = length (tiles tr) - 1"
      using tile_body_flush(1) [OF kN N fitN lt] last unfolding tile_body_fields by simp
    have f2: "do_gmem_reduce (tile_body sh p ?e ?t) \<longleftrightarrow>
               Suc (unat ?t mod unat ?cols) = unat ?cols \<or> i = length (tiles tr) - 1"
      using f1 last_column_iff [OF kN N fitN j] unfolding c by simp
    show ?thesis
      unfolding b tile_body_fields using u c f1 f2 by (intro conjI) simp_all
  qed
  from r len A show ?thesis
    by (intro exI [of _ tr] conjI allI impI) blast+
qed

section \<open>The tile range of a compute unit\<close>

text \<open>
  C1, as the code has it: for a launch with \<open>total_units = gridDim.x \<ge> 1\<close>, the unit
  \<open>unit_index = blockIdx.x\<close> returns from \<open>operator()\<close> having iterated exactly the tile
  indices \<open>[unit_index*chunk_size, unit_index*chunk_size + chunk_size)\<close>, in order, where
  \<open>chunk_size = ceil(total_tiles / total_units)\<close>: the upper end is not clamped to
  \<open>total_tiles\<close>, and every unit performs \<open>chunk_size\<close> iterations. The tile count and
  the unit count together fit 32 bits, which holds whenever the tile count is an \<open>int\<close>
  product that did not overflow and the grid is one the device accepts.
\<close>

theorem unit_tile_range_unclamped:
  assumes "launch_ok sh li" and "mc_column (grid_shape sh p) \<noteq> 0"
    and "unat (tile_count (grid_shape sh p)) + unat (gridDim_x li) \<le> 2 ^ 32"
  shows "\<exists>tr. operator_call sh li p = Some (Inr tr) \<and>
           map (unat \<circ> tile_idx) (tiles tr) =
             [unat (blockIdx_x li)
                * spec_chunk_size (unat (tile_count (grid_shape sh p))) (unat (gridDim_x li)) ..<
              unat (blockIdx_x li)
                * spec_chunk_size (unat (tile_count (grid_shape sh p))) (unat (gridDim_x li))
              + spec_chunk_size (unat (tile_count (grid_shape sh p))) (unat (gridDim_x li))] \<and>
           length (tiles tr) =
             spec_chunk_size (unat (tile_count (grid_shape sh p))) (unat (gridDim_x li))"
proof -
  obtain tr where r: "operator_call sh li p = Some (Inr tr)"
    and t: "map (unat \<circ> tile_idx) (tiles tr) =
             [unat (blockIdx_x li)
                * spec_chunk_size (unat (tile_count (grid_shape sh p))) (unat (gridDim_x li)) ..<
              unat (blockIdx_x li)
                * spec_chunk_size (unat (tile_count (grid_shape sh p))) (unat (gridDim_x li))
              + spec_chunk_size (unat (tile_count (grid_shape sh p))) (unat (gridDim_x li))]"
    using operator_call_tile_indices [OF assms] by blast
  have "length (map (unat \<circ> tile_idx) (tiles tr)) =
          spec_chunk_size (unat (tile_count (grid_shape sh p))) (unat (gridDim_x li))"
    unfolding t by simp
  then have "length (tiles tr) =
          spec_chunk_size (unat (tile_count (grid_shape sh p))) (unat (gridDim_x li))"
    by simp
  with r t show ?thesis by (intro exI [of _ tr] conjI)
qed

text \<open>
  The range \<open>[unit_index*chunk_size, min(total_tiles, unit_index*chunk_size + chunk_size))\<close>
  of C1 is not what the code iterates: with 2 tiles (M = 8, N = 4, tile shape 4 x 4) and
  4 units, the specified range of unit 2 is empty, and the unit iterates tile index 2.
\<close>

theorem unit_beyond_last_tile_iterates:
  "operator_call \<lparr>kM = 4, kN = 4, kK = 4\<rparr>
     \<lparr>gridDim_x = 4, blockIdx_x = 2, blockDim_x = 32, threadIdx_x = 0\<rparr>
     \<lparr>gc_m = 8, gc_n = 4, gc_k = 2\<rparr> =
     Some (Inr \<lparr>red_init = [], prefetch = [],
                 tiles = [\<lparr>tile_idx = 2, threadblock_offset = \<lparr>mc_row = 8, mc_column = 0\<rparr>,
                          isNextTile = False, doesRowChange = True, do_gmem_reduce = True\<rparr>]\<rparr>) \<and>
   unat (tile_count (grid_shape \<lparr>kM = 4, kN = 4, kK = 4\<rparr> \<lparr>gc_m = 8, gc_n = 4, gc_k = 2\<rparr>)) = 2 \<and>
   spec_tile_range 2 4 2 = []"
proof (intro conjI)
  show "operator_call \<lparr>kM = 4, kN = 4, kK = 4\<rparr>
     \<lparr>gridDim_x = 4, blockIdx_x = 2, blockDim_x = 32, threadIdx_x = 0\<rparr>
     \<lparr>gc_m = 8, gc_n = 4, gc_k = 2\<rparr> =
     Some (Inr \<lparr>red_init = [], prefetch = [],
                 tiles = [\<lparr>tile_idx = 2, threadblock_offset = \<lparr>mc_row = 8, mc_column = 0\<rparr>,
                          isNextTile = False, doesRowChange = True, do_gmem_reduce = True\<rparr>]\<rparr>)"
    by code_simp
  show "unat (tile_count (grid_shape \<lparr>kM = 4, kN = 4, kK = 4\<rparr> \<lparr>gc_m = 8, gc_n = 4, gc_k = 2\<rparr>)) = 2"
    by (simp add: ex_grid_8_4 tile_count_def)
  show "spec_tile_range 2 4 2 = []"
    by (simp add: spec_tile_range_def spec_chunk_size_eq)
qed

theorem unit_tile_range_unclamped_witness:
  "launch_ok \<lparr>kM = 4, kN = 4, kK = 4\<rparr>
     \<lparr>gridDim_x = 2, blockIdx_x = 1, blockDim_x = 32, threadIdx_x = 0\<rparr> \<and>
   mc_column (grid_shape \<lparr>kM = 4, kN = 4, kK = 4\<rparr> \<lparr>gc_m = 8, gc_n = 8, gc_k = 2\<rparr>) \<noteq> 0 \<and>
   unat (tile_count (grid_shape \<lparr>kM = 4, kN = 4, kK = 4\<rparr> \<lparr>gc_m = 8, gc_n = 8, gc_k = 2\<rparr>))
     + unat (gridDim_x \<lparr>gridDim_x = 2, blockIdx_x = 1, blockDim_x = 32, threadIdx_x = 0\<rparr>)
     \<le> 2 ^ 32 \<and>
   (\<exists>tr. operator_call \<lparr>kM = 4, kN = 4, kK = 4\<rparr>
           \<lparr>gridDim_x = 2, blockIdx_x = 1, blockDim_x = 32, threadIdx_x = 0\<rparr>
           \<lparr>gc_m = 8, gc_n = 8, gc_k = 2\<rparr> = Some (Inr tr) \<and>
         map (unat \<circ> tile_idx) (tiles tr) = [2 ..< 4] \<and> length (tiles tr) = 2)"
proof -
  let ?S = "\<lparr>kM = 4, kN = 4, kK = 4\<rparr>"
  let ?L = "\<lparr>gridDim_x = 2, blockIdx_x = 1, blockDim_x = 32, threadIdx_x = 0\<rparr>"
  let ?P = "\<lparr>gc_m = 8, gc_n = 8, gc_k = 2\<rparr>"
  have h1: "launch_ok ?S ?L"
    by (simp add: launch_ok_def)
  have h2: "mc_column (grid_shape ?S ?P) \<noteq> 0"
    by (simp add: ex_grid_8_8)
  have h3: "unat (tile_count (grid_shape ?S ?P)) + unat (gridDim_x ?L) \<le> 2 ^ 32"
    by (simp add: ex_grid_8_8 tile_count_def)
  have c: "spec_chunk_size (unat (tile_count (grid_shape ?S ?P))) (unat (gridDim_x ?L)) = 2"
    by (simp add: ex_grid_8_8 tile_count_def spec_chunk_size_eq)
  have "\<exists>tr. operator_call ?S ?L ?P = Some (Inr tr) \<and>
         map (unat \<circ> tile_idx) (tiles tr) = [2 ..< 4] \<and> length (tiles tr) = 2"
    using unit_tile_range_unclamped [OF h1 h2 h3] unfolding c by simp
  with h1 h2 h3 show ?thesis by (intro conjI)
qed

section \<open>The partition of the tile index space\<close>

text \<open>
  C3, as the code has it: for every tile count and every unit count \<open>\<ge> 1\<close> (together
  within 32 bits), divisible or not, more units than tiles or not, every unit returns and
  every tile linear index in \<open>[0, total_tiles)\<close> is iterated by exactly one compute unit.
\<close>

theorem units_cover_every_tile_once:
  assumes ok: "launch_ok sh li" and cols: "mc_column (grid_shape sh p) \<noteq> 0"
    and fit: "unat (tile_count (grid_shape sh p)) + unat (gridDim_x li) \<le> 2 ^ 32"
  shows "(\<forall>u < unat (gridDim_x li).
            \<exists>tr. operator_call sh (li\<lparr>blockIdx_x := of_nat u\<rparr>) p = Some (Inr tr)) \<and>
         (\<forall>t < unat (tile_count (grid_shape sh p)).
            \<exists>!u. u < unat (gridDim_x li) \<and>
                 t \<in> set (iterated_tiles (operator_call sh (li\<lparr>blockIdx_x := of_nat u\<rparr>) p)))"
proof (intro conjI allI impI)
  fix u assume "u < unat (gridDim_x li)"
  then show "\<exists>tr. operator_call sh (li\<lparr>blockIdx_x := of_nat u\<rparr>) p = Some (Inr tr)"
    using iterated_tiles_unit(1) [OF ok cols fit] by blast
next
  let ?T = "unat (tile_count (grid_shape sh p))" and ?U = "unat (gridDim_x li)"
  let ?c = "spec_chunk_size ?T ?U"
  fix t assume t: "t < ?T"
  have upos: "0 < ?U"
    using ok by (simp add: launch_ok_def unat_gt_0)
  have c: "?c = (?T + ?U - 1) div ?U"
    using upos by (rule spec_chunk_size_eq)
  have cov: "?T \<le> ?U * ?c"
    unfolding c using upos by (rule ceil_mult_ge)
  have ex: "\<exists>!u. u < ?U \<and> t \<in> set [u * ?c ..< u * ?c + ?c]"
    using t cov by (rule unique_chunk)
  have eq: "(u < ?U \<and> t \<in> set (iterated_tiles (operator_call sh (li\<lparr>blockIdx_x := of_nat u\<rparr>) p)))
            \<longleftrightarrow> (u < ?U \<and> t \<in> set [u * ?c ..< u * ?c + ?c])" for u
    using iterated_tiles_unit(2) [OF ok cols fit, of u] by (cases "u < ?U") simp_all
  show "\<exists>!u. u < ?U \<and> t \<in> set (iterated_tiles (operator_call sh (li\<lparr>blockIdx_x := of_nat u\<rparr>) p))"
    using ex unfolding eq .
qed

text \<open>
  The other half of C3, that no unit iterates a tile index outside \<open>[0, total_tiles)\<close>,
  fails: with 5 tiles (M = 4, N = 20, tile shape 4 x 4) and 2 units, unit 1 iterates
  the indices 3, 4 and 5.
\<close>

theorem last_unit_iterates_past_grid:
  "iterated_tiles
     (operator_call \<lparr>kM = 4, kN = 4, kK = 4\<rparr>
        \<lparr>gridDim_x = 2, blockIdx_x = 1, blockDim_x = 32, threadIdx_x = 0\<rparr>
        \<lparr>gc_m = 4, gc_n = 20, gc_k = 2\<rparr>) = [3, 4, 5] \<and>
   unat (tile_count (grid_shape \<lparr>kM = 4, kN = 4, kK = 4\<rparr> \<lparr>gc_m = 4, gc_n = 20, gc_k = 2\<rparr>)) = 5"
  by code_simp

theorem units_cover_every_tile_once_witness:
  "launch_ok \<lparr>kM = 4, kN = 4, kK = 4\<rparr>
     \<lparr>gridDim_x = 2, blockIdx_x = 0, blockDim_x = 32, threadIdx_x = 0\<rparr> \<and>
   mc_column (grid_shape \<lparr>kM = 4, kN = 4, kK = 4\<rparr> \<lparr>gc_m = 8, gc_n = 8, gc_k = 2\<rparr>) \<noteq> 0 \<and>
   unat (tile_count (grid_shape \<lparr>kM = 4, kN = 4, kK = 4\<rparr> \<lparr>gc_m = 8, gc_n = 8, gc_k = 2\<rparr>))
     + unat (gridDim_x \<lparr>gridDim_x = 2, blockIdx_x = 0, blockDim_x = 32, threadIdx_x = 0\<rparr>)
     \<le> 2 ^ 32 \<and>
   (\<exists>tr. operator_call \<lparr>kM = 4, kN = 4, kK = 4\<rparr>
           (\<lparr>gridDim_x = 2, blockIdx_x = 0, blockDim_x = 32, threadIdx_x = 0\<rparr>
              \<lparr>blockIdx_x := of_nat 1\<rparr>)
           \<lparr>gc_m = 8, gc_n = 8, gc_k = 2\<rparr> = Some (Inr tr)) \<and>
   (\<exists>!u. u < unat (gridDim_x \<lparr>gridDim_x = 2, blockIdx_x = 0, blockDim_x = 32, threadIdx_x = 0\<rparr>) \<and>
         3 \<in> set (iterated_tiles
                    (operator_call \<lparr>kM = 4, kN = 4, kK = 4\<rparr>
                       (\<lparr>gridDim_x = 2, blockIdx_x = 0, blockDim_x = 32, threadIdx_x = 0\<rparr>
                          \<lparr>blockIdx_x := of_nat u\<rparr>)
                       \<lparr>gc_m = 8, gc_n = 8, gc_k = 2\<rparr>)))"
proof -
  let ?S = "\<lparr>kM = 4, kN = 4, kK = 4\<rparr>"
  let ?L = "\<lparr>gridDim_x = 2, blockIdx_x = 0, blockDim_x = 32, threadIdx_x = 0\<rparr>"
  let ?P = "\<lparr>gc_m = 8, gc_n = 8, gc_k = 2\<rparr>"
  have h1: "launch_ok ?S ?L"
    by (simp add: launch_ok_def)
  have h2: "mc_column (grid_shape ?S ?P) \<noteq> 0"
    by (simp add: ex_grid_8_8)
  have h3: "unat (tile_count (grid_shape ?S ?P)) + unat (gridDim_x ?L) \<le> 2 ^ 32"
    by (simp add: ex_grid_8_8 tile_count_def)
  have u1: "1 < unat (gridDim_x ?L)"
    by simp
  have t3: "3 < unat (tile_count (grid_shape ?S ?P))"
    by (simp add: ex_grid_8_8 tile_count_def)
  note cover = units_cover_every_tile_once [OF h1 h2 h3]
  have a: "\<exists>tr. operator_call ?S (?L\<lparr>blockIdx_x := of_nat 1\<rparr>) ?P = Some (Inr tr)"
    using cover u1 by blast
  have b: "\<exists>!u. u < unat (gridDim_x ?L) \<and>
         3 \<in> set (iterated_tiles (operator_call ?S (?L\<lparr>blockIdx_x := of_nat u\<rparr>) ?P))"
    using cover t3 by blast
  from h1 h2 h3 a b show ?thesis by (intro conjI)
qed

section \<open>A problem without tiles\<close>

text \<open>
  C9: when \<open>M = 0\<close> or \<open>N = 0\<close> the tile count is 0; in
  \<open>(tile_count - 1 + gridDim.x) / gridDim.x\<close> the subtraction wraps to \<open>2^32 - 1\<close> and
  the sum is \<open>gridDim.x - 1\<close>, so the quotient \<open>problem_chunk\<close> is 0, every unit's
  \<open>problem_chunk_end\<close> is 0, and the persistent loop, started at
  \<open>blockIdx.x * problem_chunk\<close>, has no iteration; where the grid has columns (\<open>M = 0\<close>,
  \<open>N \<ge> 1\<close>) the whole call returns having done nothing.
\<close>

theorem zero_tiles_zero_iterations:
  fixes g b :: u32
  assumes g: "g \<noteq> 0" and kM: "0 < sint (kM sh)" and kN: "0 < sint (kN sh)"
    and z: "gc_m p = 0 \<or> gc_n p = 0"
  shows "tile_count (grid_shape sh p) = 0 \<and>
         unat (tile_count (grid_shape sh p) - 1) = 2 ^ 32 - 1 \<and>
         tile_count (grid_shape sh p) - 1 + g = g - 1 \<and>
         (g - 1) div g = 0 \<and>
         problem_chunk sh g p = 0 \<and>
         problem_chunk_end b (problem_chunk sh g p) = 0 \<and>
         tile_loop sh p (problem_chunk_end b (problem_chunk sh g p)) (b * problem_chunk sh g p)
           = Inr [] \<and>
         (mc_column (grid_shape sh p) \<noteq> 0 \<longrightarrow>
            operator_call sh \<lparr>gridDim_x = g, blockIdx_x = b, blockDim_x = bd, threadIdx_x = tid\<rparr> p
              = Some (Inr \<lparr>red_init = [], prefetch = [], tiles = []\<rparr>))"
proof -
  have t: "tile_count (grid_shape sh p) = 0"
    using kM kN z by (rule no_tiles)
  have d: "(g - 1) div g = 0"
    using g by (rule pred_div_self)
  have c: "problem_chunk sh g p = 0"
    by (simp add: problem_chunk_def t d)
  have e: "problem_chunk_end b (problem_chunk sh g p) = 0"
    by (simp add: c problem_chunk_end_def)
  have l: "tile_loop sh p (problem_chunk_end b (problem_chunk sh g p)) (b * problem_chunk sh g p)
             = Inr []"
    unfolding e by (rule tile_loop_empty) simp
  have w: "unat (tile_count (grid_shape sh p) - 1) = 2 ^ 32 - 1"
    by (simp add: t unsigned_minus_1_eq_mask mask_eq_exp_minus_1)
  have s: "tile_count (grid_shape sh p) - 1 + g = g - 1"
    by (simp add: t)
  have o: "mc_column (grid_shape sh p) \<noteq> 0 \<longrightarrow>
            operator_call sh \<lparr>gridDim_x = g, blockIdx_x = b, blockDim_x = bd, threadIdx_x = tid\<rparr> p
              = Some (Inr \<lparr>red_init = [], prefetch = [], tiles = []\<rparr>)"
  proof
    assume cols: "mc_column (grid_shape sh p) \<noteq> 0"
    let ?li = "\<lparr>gridDim_x = g, blockIdx_x = b, blockDim_x = bd, threadIdx_x = tid\<rparr>"
    have g': "gridDim_x ?li \<noteq> 0" using g by simp
    have c': "problem_chunk sh (gridDim_x ?li) p = 0" using c by simp
    show "operator_call sh ?li p = Some (Inr \<lparr>red_init = [], prefetch = [], tiles = []\<rparr>)"
      using g' cols c' by (rule operator_call_no_tiles)
  qed
  from t w s d c e l o show ?thesis by (intro conjI)
qed

theorem zero_tiles_zero_iterations_witness:
  "(3 :: u32) \<noteq> 0 \<and>
   0 < sint (kM \<lparr>kM = 4, kN = 4, kK = 4\<rparr>) \<and> 0 < sint (kN \<lparr>kM = 4, kN = 4, kK = 4\<rparr>) \<and>
   gc_m \<lparr>gc_m = 0, gc_n = 8, gc_k = 2\<rparr> = 0 \<and>
   tile_count (grid_shape \<lparr>kM = 4, kN = 4, kK = 4\<rparr> \<lparr>gc_m = 0, gc_n = 8, gc_k = 2\<rparr>) = 0 \<and>
   problem_chunk \<lparr>kM = 4, kN = 4, kK = 4\<rparr> 3 \<lparr>gc_m = 0, gc_n = 8, gc_k = 2\<rparr> = 0 \<and>
   problem_chunk_end 2 (problem_chunk \<lparr>kM = 4, kN = 4, kK = 4\<rparr> 3 \<lparr>gc_m = 0, gc_n = 8, gc_k = 2\<rparr>) = 0 \<and>
   tile_loop \<lparr>kM = 4, kN = 4, kK = 4\<rparr> \<lparr>gc_m = 0, gc_n = 8, gc_k = 2\<rparr>
     (problem_chunk_end 2 (problem_chunk \<lparr>kM = 4, kN = 4, kK = 4\<rparr> 3 \<lparr>gc_m = 0, gc_n = 8, gc_k = 2\<rparr>))
     (2 * problem_chunk \<lparr>kM = 4, kN = 4, kK = 4\<rparr> 3 \<lparr>gc_m = 0, gc_n = 8, gc_k = 2\<rparr>) = Inr [] \<and>
   mc_column (grid_shape \<lparr>kM = 4, kN = 4, kK = 4\<rparr> \<lparr>gc_m = 0, gc_n = 8, gc_k = 2\<rparr>) \<noteq> 0 \<and>
   operator_call \<lparr>kM = 4, kN = 4, kK = 4\<rparr>
     \<lparr>gridDim_x = 3, blockIdx_x = 2, blockDim_x = 32, threadIdx_x = 5\<rparr>
     \<lparr>gc_m = 0, gc_n = 8, gc_k = 2\<rparr> = Some (Inr \<lparr>red_init = [], prefetch = [], tiles = []\<rparr>)"
proof -
  let ?S = "\<lparr>kM = 4, kN = 4, kK = 4\<rparr>"
  let ?P = "\<lparr>gc_m = 0, gc_n = 8, gc_k = 2\<rparr>"
  have h1: "(3 :: u32) \<noteq> 0" by simp
  have h2: "0 < sint (kM ?S)" by simp
  have h3: "0 < sint (kN ?S)" by simp
  have h4: "gc_m ?P = 0" by simp
  then have h4': "gc_m ?P = 0 \<or> gc_n ?P = 0" by (rule disjI1)
  have h5: "mc_column (grid_shape ?S ?P) \<noteq> 0"
    by (simp add: grid_shape_def c_sdiv_def signed_divide_int_def)
  note z = zero_tiles_zero_iterations [OF h1 h2 h3 h4', of 2 32 5]
  from z have a: "tile_count (grid_shape ?S ?P) = 0"
    and b: "problem_chunk ?S 3 ?P = 0"
    and c: "problem_chunk_end 2 (problem_chunk ?S 3 ?P) = 0"
    and d: "tile_loop ?S ?P (problem_chunk_end 2 (problem_chunk ?S 3 ?P))
              (2 * problem_chunk ?S 3 ?P) = Inr []"
    by blast+
  from z h5 have e: "operator_call ?S
       \<lparr>gridDim_x = 3, blockIdx_x = 2, blockDim_x = 32, threadIdx_x = 5\<rparr> ?P
       = Some (Inr \<lparr>red_init = [], prefetch = [], tiles = []\<rparr>)"
    by blast
  from h1 h2 h3 h4 a b c d h5 e show ?thesis by (intro conjI)
qed

section \<open>The tile grid of a non-empty problem\<close>

text \<open>
  C7: for every problem with \<open>M \<ge> 1\<close> and \<open>N \<ge> 1\<close>, single row and single column
  included, \<open>grid_shape_\<close> is \<open>(ceil(M/kM), ceil(N/kN))\<close>, both components are at least
  1, the column count is not zero, and no call of the kernel divides by zero. The tile
  shape is positive, and \<open>M - 1 + kM\<close> and \<open>N - 1 + kN\<close> are within \<open>int\<close>.
\<close>

theorem grid_shape_ceil_no_division_by_zero:
  assumes kM: "0 < sint (kM sh)" and kN: "0 < sint (kN sh)"
    and M: "1 \<le> sint (gc_m p)" and N: "1 \<le> sint (gc_n p)"
    and fitM: "sint (gc_m p) + sint (kM sh) \<le> 2 ^ 31"
    and fitN: "sint (gc_n p) + sint (kN sh) \<le> 2 ^ 31"
    and g: "gridDim_x li \<noteq> 0"
  shows "sint (mc_row (grid_shape sh p)) =
           \<lceil>real_of_int (sint (gc_m p)) / real_of_int (sint (kM sh))\<rceil> \<and>
         sint (mc_column (grid_shape sh p)) =
           \<lceil>real_of_int (sint (gc_n p)) / real_of_int (sint (kN sh))\<rceil> \<and>
         1 \<le> sint (mc_row (grid_shape sh p)) \<and>
         1 \<le> sint (mc_column (grid_shape sh p)) \<and>
         mc_column (grid_shape sh p) \<noteq> 0 \<and>
         operator_call sh li p \<noteq> Some (Inl DivideByZero)"
proof -
  note r = grid_extent [OF kM M fitM] and c = grid_extent [OF kN N fitN]
  have cols: "mc_column (grid_shape sh p) \<noteq> 0"
    using c(3) by (simp add: grid_shape_def)
  have "operator_call sh li p \<noteq> Some (Inl DivideByZero)"
    using g cols by (rule operator_call_no_div0)
  with r c cols show ?thesis
    by (simp add: grid_shape_def)
qed

theorem grid_shape_ceil_no_division_by_zero_witness:
  "0 < sint (kM \<lparr>kM = 4, kN = 4, kK = 4\<rparr>) \<and> 0 < sint (kN \<lparr>kM = 4, kN = 4, kK = 4\<rparr>) \<and>
   1 \<le> sint (gc_m \<lparr>gc_m = 1, gc_n = 1, gc_k = 2\<rparr>) \<and>
   1 \<le> sint (gc_n \<lparr>gc_m = 1, gc_n = 1, gc_k = 2\<rparr>) \<and>
   sint (gc_m \<lparr>gc_m = 1, gc_n = 1, gc_k = 2\<rparr>) + sint (kM \<lparr>kM = 4, kN = 4, kK = 4\<rparr>) \<le> 2 ^ 31 \<and>
   sint (gc_n \<lparr>gc_m = 1, gc_n = 1, gc_k = 2\<rparr>) + sint (kN \<lparr>kM = 4, kN = 4, kK = 4\<rparr>) \<le> 2 ^ 31 \<and>
   gridDim_x \<lparr>gridDim_x = 2, blockIdx_x = 1, blockDim_x = 32, threadIdx_x = 0\<rparr> \<noteq> 0 \<and>
   sint (mc_row (grid_shape \<lparr>kM = 4, kN = 4, kK = 4\<rparr> \<lparr>gc_m = 1, gc_n = 1, gc_k = 2\<rparr>)) = 1 \<and>
   sint (mc_column (grid_shape \<lparr>kM = 4, kN = 4, kK = 4\<rparr> \<lparr>gc_m = 1, gc_n = 1, gc_k = 2\<rparr>)) = 1 \<and>
   operator_call \<lparr>kM = 4, kN = 4, kK = 4\<rparr>
     \<lparr>gridDim_x = 2, blockIdx_x = 1, blockDim_x = 32, threadIdx_x = 0\<rparr>
     \<lparr>gc_m = 1, gc_n = 1, gc_k = 2\<rparr> \<noteq> Some (Inl DivideByZero)"
proof -
  let ?S = "\<lparr>kM = 4, kN = 4, kK = 4\<rparr>"
  let ?L = "\<lparr>gridDim_x = 2, blockIdx_x = 1, blockDim_x = 32, threadIdx_x = 0\<rparr>"
  let ?P = "\<lparr>gc_m = 1, gc_n = 1, gc_k = 2\<rparr>"
  have h1: "0 < sint (kM ?S)" and h2: "0 < sint (kN ?S)"
    and h3: "1 \<le> sint (gc_m ?P)" and h4: "1 \<le> sint (gc_n ?P)"
    and h5: "sint (gc_m ?P) + sint (kM ?S) \<le> 2 ^ 31"
    and h6: "sint (gc_n ?P) + sint (kN ?S) \<le> 2 ^ 31"
    and h7: "gridDim_x ?L \<noteq> 0"
    by simp_all
  note z = grid_shape_ceil_no_division_by_zero [OF h1 h2 h3 h4 h5 h6 h7]
  have one: "\<lceil>real_of_int 1 / real_of_int 4\<rceil> = (1 :: int)"
    using ceil_div_int [of 4 1] by simp
  from z have a: "sint (mc_row (grid_shape ?S ?P)) = 1"
    and b: "sint (mc_column (grid_shape ?S ?P)) = 1"
    and c: "operator_call ?S ?L ?P \<noteq> Some (Inl DivideByZero)"
    using one by simp_all
  from h1 h2 h3 h4 h5 h6 h7 a b c show ?thesis by (intro conjI)
qed

section \<open>When the reduction is flushed\<close>

text \<open>
  C2: a unit iterates the tiles \<open>blockIdx.x * problem_chunk + i\<close> for
  \<open>i < problem_chunk_end - blockIdx.x * problem_chunk\<close>, the column offset of each is
  \<open>(tile_idx % grid_columns) * kN\<close>, and \<open>do_gmem_reduce\<close> is true for a tile exactly when
  that column offset plus the tile width \<open>kN\<close> reaches or exceeds \<open>N\<close>, that is, exactly
  when the tile is the last column-tile of its row-band (\<open>tile_idx % grid_columns\<close> is
  \<open>grid_columns - 1\<close>), or the tile is the last one of the unit's range; for no other tile
  is the flag set. In the scenario M = 8, N = 8, tile shape 4 x 4, 2 units of 2 tiles each,
  the flag is set exactly at the second tile of each row-band: tile 1 for unit 0 and tile 3
  for unit 1. A single unit owning all 4 tiles flushes at tiles 1 and 3 as well, so the
  flush at tile 1 is the one of the band end.
\<close>

theorem flush_at_band_end_or_range_end:
  "(launch_ok sh li \<and> 0 < sint (kN sh) \<and> 1 \<le> sint (gc_n p) \<and>
    sint (gc_n p) + sint (kN sh) \<le> 2 ^ 31 \<longrightarrow>
      (\<exists>tr. operator_call sh li p = Some (Inr tr) \<and>
         length (tiles tr) =
           unat (problem_chunk_end (blockIdx_x li) (problem_chunk sh (gridDim_x li) p))
           - unat (blockIdx_x li * problem_chunk sh (gridDim_x li) p) \<and>
         (\<forall>i < length (tiles tr).
            tile_idx (tiles tr ! i) = blockIdx_x li * problem_chunk sh (gridDim_x li) p + of_nat i \<and>
            unat (tile_idx (tiles tr ! i)) =
              unat (blockIdx_x li * problem_chunk sh (gridDim_x li) p) + i \<and>
            mc_column (threadblock_offset (tiles tr ! i)) =
              (tile_idx (tiles tr ! i) mod mc_column (grid_shape sh p)) * kN sh \<and>
            sint (mc_column (threadblock_offset (tiles tr ! i))) =
              int (unat (tile_idx (tiles tr ! i)) mod unat (mc_column (grid_shape sh p)))
                * sint (kN sh) \<and>
            (do_gmem_reduce (tiles tr ! i) \<longleftrightarrow>
               sint (gc_n p) \<le> sint (mc_column (threadblock_offset (tiles tr ! i))) + sint (kN sh)
               \<or> i = length (tiles tr) - 1) \<and>
            (do_gmem_reduce (tiles tr ! i) \<longleftrightarrow>
               Suc (unat (tile_idx (tiles tr ! i)) mod unat (mc_column (grid_shape sh p)))
                 = unat (mc_column (grid_shape sh p))
               \<or> i = length (tiles tr) - 1)))) \<and>
   flushes (operator_call \<lparr>kM = 4, kN = 4, kK = 4\<rparr>
              \<lparr>gridDim_x = 2, blockIdx_x = 0, blockDim_x = 32, threadIdx_x = 0\<rparr>
              \<lparr>gc_m = 8, gc_n = 8, gc_k = 2\<rparr>) = [(0, False), (1, True)] \<and>
   flushes (operator_call \<lparr>kM = 4, kN = 4, kK = 4\<rparr>
              \<lparr>gridDim_x = 2, blockIdx_x = 1, blockDim_x = 32, threadIdx_x = 0\<rparr>
              \<lparr>gc_m = 8, gc_n = 8, gc_k = 2\<rparr>) = [(2, False), (3, True)] \<and>
   flushes (operator_call \<lparr>kM = 4, kN = 4, kK = 4\<rparr>
              \<lparr>gridDim_x = 1, blockIdx_x = 0, blockDim_x = 32, threadIdx_x = 0\<rparr>
              \<lparr>gc_m = 8, gc_n = 8, gc_k = 2\<rparr>) = [(0, False), (1, True), (2, False), (3, True)]"
proof (intro conjI impI)
  assume "launch_ok sh li \<and> 0 < sint (kN sh) \<and> 1 \<le> sint (gc_n p) \<and>
    sint (gc_n p) + sint (kN sh) \<le> 2 ^ 31"
  then have ok: "launch_ok sh li" and kN: "0 < sint (kN sh)" and N: "1 \<le> sint (gc_n p)"
    and fitN: "sint (gc_n p) + sint (kN sh) \<le> 2 ^ 31"
    by simp_all
  show "\<exists>tr. operator_call sh li p = Some (Inr tr) \<and>
         length (tiles tr) =
           unat (problem_chunk_end (blockIdx_x li) (problem_chunk sh (gridDim_x li) p))
           - unat (blockIdx_x li * problem_chunk sh (gridDim_x li) p) \<and>
         (\<forall>i < length (tiles tr).
            tile_idx (tiles tr ! i) = blockIdx_x li * problem_chunk sh (gridDim_x li) p + of_nat i \<and>
            unat (tile_idx (tiles tr ! i)) =
              unat (blockIdx_x li * problem_chunk sh (gridDim_x li) p) + i \<and>
            mc_column (threadblock_offset (tiles tr ! i)) =
              (tile_idx (tiles tr ! i) mod mc_column (grid_shape sh p)) * kN sh \<and>
            sint (mc_column (threadblock_offset (tiles tr ! i))) =
              int (unat (tile_idx (tiles tr ! i)) mod unat (mc_column (grid_shape sh p)))
                * sint (kN sh) \<and>
            (do_gmem_reduce (tiles tr ! i) \<longleftrightarrow>
               sint (gc_n p) \<le> sint (mc_column (threadblock_offset (tiles tr ! i))) + sint (kN sh)
               \<or> i = length (tiles tr) - 1) \<and>
            (do_gmem_reduce (tiles tr ! i) \<longleftrightarrow>
               Suc (unat (tile_idx (tiles tr ! i)) mod unat (mc_column (grid_shape sh p)))
                 = unat (mc_column (grid_shape sh p))
               \<or> i = length (tiles tr) - 1))"
    using ok kN N fitN by (rule flush_rule_by_index)
next
  show "flushes (operator_call \<lparr>kM = 4, kN = 4, kK = 4\<rparr>
              \<lparr>gridDim_x = 2, blockIdx_x = 0, blockDim_x = 32, threadIdx_x = 0\<rparr>
              \<lparr>gc_m = 8, gc_n = 8, gc_k = 2\<rparr>) = [(0, False), (1, True)]"
    by code_simp
next
  show "flushes (operator_call \<lparr>kM = 4, kN = 4, kK = 4\<rparr>
              \<lparr>gridDim_x = 2, blockIdx_x = 1, blockDim_x = 32, threadIdx_x = 0\<rparr>
              \<lparr>gc_m = 8, gc_n = 8, gc_k = 2\<rparr>) = [(2, False), (3, True)]"
    by code_simp
next
  show "flushes (operator_call \<lparr>kM = 4, kN = 4, kK = 4\<rparr>
              \<lparr>gridDim_x = 1, blockIdx_x = 0, blockDim_x = 32, threadIdx_x = 0\<rparr>
              \<lparr>gc_m = 8, gc_n = 8, gc_k = 2\<rparr>) = [(0, False), (1, True), (2, False), (3, True)]"
    by code_simp
qed

theorem flush_at_band_end_or_range_end_witness:
  "launch_ok \<lparr>kM = 4, kN = 4, kK = 4\<rparr>
     \<lparr>gridDim_x = 2, blockIdx_x = 1, blockDim_x = 32, threadIdx_x = 0\<rparr> \<and>
   0 < sint (kN \<lparr>kM = 4, kN = 4, kK = 4\<rparr>) \<and>
   1 \<le> sint (gc_n \<lparr>gc_m = 4, gc_n = 20, gc_k = 2\<rparr>) \<and>
   sint (gc_n \<lparr>gc_m = 4, gc_n = 20, gc_k = 2\<rparr>) + sint (kN \<lparr>kM = 4, kN = 4, kK = 4\<rparr>) \<le> 2 ^ 31 \<and>
   unat (mc_column (grid_shape \<lparr>kM = 4, kN = 4, kK = 4\<rparr> \<lparr>gc_m = 4, gc_n = 20, gc_k = 2\<rparr>)) = 5 \<and>
   flushes (operator_call \<lparr>kM = 4, kN = 4, kK = 4\<rparr>
              \<lparr>gridDim_x = 2, blockIdx_x = 1, blockDim_x = 32, threadIdx_x = 0\<rparr>
              \<lparr>gc_m = 4, gc_n = 20, gc_k = 2\<rparr>) = [(3, False), (4, True), (5, True)] \<and>
   (\<exists>tr. operator_call \<lparr>kM = 4, kN = 4, kK = 4\<rparr>
           \<lparr>gridDim_x = 2, blockIdx_x = 1, blockDim_x = 32, threadIdx_x = 0\<rparr>
           \<lparr>gc_m = 4, gc_n = 20, gc_k = 2\<rparr> = Some (Inr tr) \<and>
         length (tiles tr) = 3 \<and>
         (\<forall>i < length (tiles tr).
            unat (tile_idx (tiles tr ! i)) = 3 + i \<and>
            sint (mc_column (threadblock_offset (tiles tr ! i))) =
              int (unat (tile_idx (tiles tr ! i)) mod 5) * 4 \<and>
            (do_gmem_reduce (tiles tr ! i) \<longleftrightarrow>
               20 \<le> sint (mc_column (threadblock_offset (tiles tr ! i))) + 4
               \<or> i = length (tiles tr) - 1) \<and>
            (do_gmem_reduce (tiles tr ! i) \<longleftrightarrow>
               Suc (unat (tile_idx (tiles tr ! i)) mod 5) = 5 \<or> i = length (tiles tr) - 1)))"
proof -
  let ?S = "\<lparr>kM = 4, kN = 4, kK = 4\<rparr>"
  let ?L = "\<lparr>gridDim_x = 2, blockIdx_x = 1, blockDim_x = 32, threadIdx_x = 0\<rparr>"
  let ?P = "\<lparr>gc_m = 4, gc_n = 20, gc_k = 2\<rparr>"
  have h1: "launch_ok ?S ?L" by (simp add: launch_ok_def)
  have h2: "0 < sint (kN ?S)" by simp
  have h3: "1 \<le> sint (gc_n ?P)" by simp
  have h4: "sint (gc_n ?P) + sint (kN ?S) \<le> 2 ^ 31" by simp
  from h1 h2 h3 h4 have h: "launch_ok ?S ?L \<and> 0 < sint (kN ?S) \<and> 1 \<le> sint (gc_n ?P) \<and>
      sint (gc_n ?P) + sint (kN ?S) \<le> 2 ^ 31"
    by (intro conjI)
  have c5: "unat (mc_column (grid_shape ?S ?P)) = 5"
    by (simp add: ex_grid_4_20)
  have s3: "unat (blockIdx_x ?L * problem_chunk ?S (gridDim_x ?L) ?P) = 3"
    by code_simp
  have e6: "unat (problem_chunk_end (blockIdx_x ?L) (problem_chunk ?S (gridDim_x ?L) ?P)) = 6"
    by code_simp
  have fl: "flushes (operator_call ?S ?L ?P) = [(3, False), (4, True), (5, True)]"
    by code_simp
  obtain tr where r: "operator_call ?S ?L ?P = Some (Inr tr)"
    and len: "length (tiles tr) =
           unat (problem_chunk_end (blockIdx_x ?L) (problem_chunk ?S (gridDim_x ?L) ?P))
           - unat (blockIdx_x ?L * problem_chunk ?S (gridDim_x ?L) ?P)"
    and all: "\<forall>i < length (tiles tr).
            tile_idx (tiles tr ! i) = blockIdx_x ?L * problem_chunk ?S (gridDim_x ?L) ?P + of_nat i \<and>
            unat (tile_idx (tiles tr ! i)) =
              unat (blockIdx_x ?L * problem_chunk ?S (gridDim_x ?L) ?P) + i \<and>
            mc_column (threadblock_offset (tiles tr ! i)) =
              (tile_idx (tiles tr ! i) mod mc_column (grid_shape ?S ?P)) * kN ?S \<and>
            sint (mc_column (threadblock_offset (tiles tr ! i))) =
              int (unat (tile_idx (tiles tr ! i)) mod unat (mc_column (grid_shape ?S ?P)))
                * sint (kN ?S) \<and>
            (do_gmem_reduce (tiles tr ! i) \<longleftrightarrow>
               sint (gc_n ?P) \<le> sint (mc_column (threadblock_offset (tiles tr ! i))) + sint (kN ?S)
               \<or> i = length (tiles tr) - 1) \<and>
            (do_gmem_reduce (tiles tr ! i) \<longleftrightarrow>
               Suc (unat (tile_idx (tiles tr ! i)) mod unat (mc_column (grid_shape ?S ?P)))
                 = unat (mc_column (grid_shape ?S ?P))
               \<or> i = length (tiles tr) - 1)"
    using flush_at_band_end_or_range_end [of ?S ?L ?P, THEN conjunct1, THEN mp, OF h] by blast
  have len3: "length (tiles tr) = 3"
    using len unfolding s3 e6 by simp
  have all': "\<forall>i < length (tiles tr).
            unat (tile_idx (tiles tr ! i)) = 3 + i \<and>
            sint (mc_column (threadblock_offset (tiles tr ! i))) =
              int (unat (tile_idx (tiles tr ! i)) mod 5) * 4 \<and>
            (do_gmem_reduce (tiles tr ! i) \<longleftrightarrow>
               20 \<le> sint (mc_column (threadblock_offset (tiles tr ! i))) + 4
               \<or> i = length (tiles tr) - 1) \<and>
            (do_gmem_reduce (tiles tr ! i) \<longleftrightarrow>
               Suc (unat (tile_idx (tiles tr ! i)) mod 5) = 5 \<or> i = length (tiles tr) - 1)"
  proof (intro allI impI)
    fix i assume i: "i < length (tiles tr)"
    from all i have a: "unat (tile_idx (tiles tr ! i)) =
              unat (blockIdx_x ?L * problem_chunk ?S (gridDim_x ?L) ?P) + i"
      and b: "sint (mc_column (threadblock_offset (tiles tr ! i))) =
              int (unat (tile_idx (tiles tr ! i)) mod unat (mc_column (grid_shape ?S ?P)))
                * sint (kN ?S)"
      and c: "do_gmem_reduce (tiles tr ! i) \<longleftrightarrow>
               sint (gc_n ?P) \<le> sint (mc_column (threadblock_offset (tiles tr ! i))) + sint (kN ?S)
               \<or> i = length (tiles tr) - 1"
      and d: "do_gmem_reduce (tiles tr ! i) \<longleftrightarrow>
               Suc (unat (tile_idx (tiles tr ! i)) mod unat (mc_column (grid_shape ?S ?P)))
                 = unat (mc_column (grid_shape ?S ?P))
               \<or> i = length (tiles tr) - 1"
      by blast+
    have a': "unat (tile_idx (tiles tr ! i)) = 3 + i"
      using a unfolding s3 .
    have b': "sint (mc_column (threadblock_offset (tiles tr ! i))) =
              int (unat (tile_idx (tiles tr ! i)) mod 5) * 4"
      using b unfolding c5 by simp
    have c': "do_gmem_reduce (tiles tr ! i) \<longleftrightarrow>
               20 \<le> sint (mc_column (threadblock_offset (tiles tr ! i))) + 4
               \<or> i = length (tiles tr) - 1"
      using c by simp
    have d': "do_gmem_reduce (tiles tr ! i) \<longleftrightarrow>
               Suc (unat (tile_idx (tiles tr ! i)) mod 5) = 5 \<or> i = length (tiles tr) - 1"
      using d unfolding c5 .
    from a' b' c' d' show "unat (tile_idx (tiles tr ! i)) = 3 + i \<and>
            sint (mc_column (threadblock_offset (tiles tr ! i))) =
              int (unat (tile_idx (tiles tr ! i)) mod 5) * 4 \<and>
            (do_gmem_reduce (tiles tr ! i) \<longleftrightarrow>
               20 \<le> sint (mc_column (threadblock_offset (tiles tr ! i))) + 4
               \<or> i = length (tiles tr) - 1) \<and>
            (do_gmem_reduce (tiles tr ! i) \<longleftrightarrow>
               Suc (unat (tile_idx (tiles tr ! i)) mod 5) = 5 \<or> i = length (tiles tr) - 1)"
      by (intro conjI)
  qed
  from r len3 all' have "\<exists>tr. operator_call ?S ?L ?P = Some (Inr tr) \<and>
         length (tiles tr) = 3 \<and>
         (\<forall>i < length (tiles tr).
            unat (tile_idx (tiles tr ! i)) = 3 + i \<and>
            sint (mc_column (threadblock_offset (tiles tr ! i))) =
              int (unat (tile_idx (tiles tr ! i)) mod 5) * 4 \<and>
            (do_gmem_reduce (tiles tr ! i) \<longleftrightarrow>
               20 \<le> sint (mc_column (threadblock_offset (tiles tr ! i))) + 4
               \<or> i = length (tiles tr) - 1) \<and>
            (do_gmem_reduce (tiles tr ! i) \<longleftrightarrow>
               Suc (unat (tile_idx (tiles tr ! i)) mod 5) = 5 \<or> i = length (tiles tr) - 1))"
    by (intro exI [of _ tr] conjI)
  with h1 h2 h3 h4 c5 fl show ?thesis by (intro conjI)
qed

section \<open>The sweep over the tile grid\<close>

text \<open>
  C8: the \<open>i\<close>-th tile a unit iterates has the index \<open>blockIdx.x * problem_chunk + i\<close>;
  its row offset is \<open>(tile_idx / grid_columns) * kM\<close> and its column offset
  \<open>(tile_idx % grid_columns) * kN\<close>, a row-major sweep. Between two consecutive tiles of
  a unit the row offset changes exactly when the earlier tile is in the last column of the
  grid, and that is exactly when the epilogue's test \<open>doesRowChange\<close> holds for it.
\<close>

theorem sweep_matches_band_detection:
  assumes ok: "launch_ok sh li" and kM: "0 < sint (kM sh)" and kN: "0 < sint (kN sh)"
    and N: "1 \<le> sint (gc_n p)" and fitN: "sint (gc_n p) + sint (kN sh) \<le> 2 ^ 31"
  shows "\<exists>tr. operator_call sh li p = Some (Inr tr) \<and>
           (\<forall>i < length (tiles tr).
              tile_idx (tiles tr ! i) = blockIdx_x li * problem_chunk sh (gridDim_x li) p + of_nat i \<and>
              mc_row (threadblock_offset (tiles tr ! i)) =
                (tile_idx (tiles tr ! i) div mc_column (grid_shape sh p)) * kM sh \<and>
              mc_column (threadblock_offset (tiles tr ! i)) =
                (tile_idx (tiles tr ! i) mod mc_column (grid_shape sh p)) * kN sh \<and>
              sint (mc_column (threadblock_offset (tiles tr ! i))) =
                int (unat (tile_idx (tiles tr ! i)) mod unat (mc_column (grid_shape sh p)))
                  * sint (kN sh)) \<and>
           (\<forall>i. Suc i < length (tiles tr) \<longrightarrow>
              (mc_row (threadblock_offset (tiles tr ! Suc i)) \<noteq> mc_row (threadblock_offset (tiles tr ! i))
                 \<longleftrightarrow> Suc (unat (tile_idx (tiles tr ! i)) mod unat (mc_column (grid_shape sh p)))
                       = unat (mc_column (grid_shape sh p))) \<and>
              (doesRowChange (tiles tr ! i)
                 \<longleftrightarrow> Suc (unat (tile_idx (tiles tr ! i)) mod unat (mc_column (grid_shape sh p)))
                       = unat (mc_column (grid_shape sh p))))"
proof -
  let ?s = "blockIdx_x li * problem_chunk sh (gridDim_x li) p"
  let ?e = "problem_chunk_end (blockIdx_x li) (problem_chunk sh (gridDim_x li) p)"
  let ?cols = "mc_column (grid_shape sh p)"
  have cols: "?cols \<noteq> 0"
    using grid_extent(3) [OF kN N fitN] by (simp add: grid_shape_def)
  have cpos: "0 < unat ?cols" using cols by (simp add: unat_gt_0)
  have k0: "kM sh \<noteq> 0" using kM by (rule sint_pos_nonzero)
  obtain tr where r: "operator_call sh li p = Some (Inr tr)"
    and nth: "\<forall>i < length (tiles tr).
              tiles tr ! i = tile_body sh p ?e (?s + of_nat i) \<and>
              unat (?s + of_nat i) = unat ?s + i \<and> ?s + of_nat i < ?e"
    using operator_call_tiles [OF ok cols] by blast
  have A: "tile_idx (tiles tr ! i) = ?s + of_nat i \<and>
           mc_row (threadblock_offset (tiles tr ! i)) = (tile_idx (tiles tr ! i) div ?cols) * kM sh \<and>
           mc_column (threadblock_offset (tiles tr ! i)) = (tile_idx (tiles tr ! i) mod ?cols) * kN sh \<and>
           sint (mc_column (threadblock_offset (tiles tr ! i))) =
             int (unat (tile_idx (tiles tr ! i)) mod unat ?cols) * sint (kN sh)"
    if i: "i < length (tiles tr)" for i
  proof -
    have b: "tiles tr ! i = tile_body sh p ?e (?s + of_nat i)"
      using nth i by blast
    show ?thesis
      unfolding b tile_body_fields
      using column_offset(2) [OF kN N fitN, where t = "?s + of_nat i"] by simp
  qed
  have B: "(mc_row (threadblock_offset (tiles tr ! Suc i)) \<noteq> mc_row (threadblock_offset (tiles tr ! i))
              \<longleftrightarrow> Suc (unat (tile_idx (tiles tr ! i)) mod unat ?cols) = unat ?cols) \<and>
           (doesRowChange (tiles tr ! i)
              \<longleftrightarrow> Suc (unat (tile_idx (tiles tr ! i)) mod unat ?cols) = unat ?cols)"
    if i: "Suc i < length (tiles tr)" for i
  proof -
    let ?t = "?s + of_nat i"
    have i': "i < length (tiles tr)" using i by simp
    have b: "tiles tr ! i = tile_body sh p ?e ?t"
      and u: "unat ?t = unat ?s + i" and lt: "?t < ?e"
      using nth i' by blast+
    have b': "tiles tr ! Suc i = tile_body sh p ?e (?s + of_nat (Suc i))"
      and u': "unat (?s + of_nat (Suc i)) = unat ?s + Suc i"
      using nth i by blast+
    have w: "?s + of_nat (Suc i) = ?t + 1" by simp
    have nw: "unat (?t + 1) = Suc (unat ?t)"
      using u u' unfolding w by simp
    have step: "((?t + 1) div ?cols) * kM sh \<noteq> (?t div ?cols) * kM sh
                  \<longleftrightarrow> Suc (unat ?t mod unat ?cols) = unat ?cols"
      using cols k0 nw by (rule row_offset_step)
    have j: "unat ?t mod unat ?cols < unat ?cols"
      using cpos by (rule mod_less_divisor)
    have c: "sint ((?t mod ?cols) * kN sh) = int (unat ?t mod unat ?cols) * sint (kN sh)"
      using column_offset(2) [OF kN N fitN, where t = ?t] by simp
    have rc: "doesRowChange (tile_body sh p ?e ?t) \<longleftrightarrow> Suc (unat ?t mod unat ?cols) = unat ?cols"
      using tile_body_flush(2) [OF kN N fitN lt] last_column_iff [OF kN N fitN j]
      unfolding tile_body_fields c by simp
    show ?thesis
      unfolding b b' w tile_body_fields using step rc by simp
  qed
  from r A B show ?thesis by blast
qed

theorem sweep_matches_band_detection_witness:
  "launch_ok \<lparr>kM = 4, kN = 4, kK = 4\<rparr>
     \<lparr>gridDim_x = 2, blockIdx_x = 1, blockDim_x = 32, threadIdx_x = 0\<rparr> \<and>
   0 < sint (kM \<lparr>kM = 4, kN = 4, kK = 4\<rparr>) \<and>
   0 < sint (kN \<lparr>kM = 4, kN = 4, kK = 4\<rparr>) \<and>
   1 \<le> sint (gc_n \<lparr>gc_m = 4, gc_n = 20, gc_k = 2\<rparr>) \<and>
   sint (gc_n \<lparr>gc_m = 4, gc_n = 20, gc_k = 2\<rparr>) + sint (kN \<lparr>kM = 4, kN = 4, kK = 4\<rparr>) \<le> 2 ^ 31 \<and>
   (\<exists>tr. operator_call \<lparr>kM = 4, kN = 4, kK = 4\<rparr>
           \<lparr>gridDim_x = 2, blockIdx_x = 1, blockDim_x = 32, threadIdx_x = 0\<rparr>
           \<lparr>gc_m = 4, gc_n = 20, gc_k = 2\<rparr> = Some (Inr tr) \<and>
         map (\<lambda>t. (tile_idx t, mc_row (threadblock_offset t), doesRowChange t)) (tiles tr) =
           [(3, 0, False), (4, 0, True), (5, 4, False)] \<and>
         (\<forall>i. Suc i < length (tiles tr) \<longrightarrow>
            (mc_row (threadblock_offset (tiles tr ! Suc i)) \<noteq> mc_row (threadblock_offset (tiles tr ! i))
               \<longleftrightarrow> Suc (unat (tile_idx (tiles tr ! i))
                         mod unat (mc_column (grid_shape \<lparr>kM = 4, kN = 4, kK = 4\<rparr>
                                                \<lparr>gc_m = 4, gc_n = 20, gc_k = 2\<rparr>)))
                     = unat (mc_column (grid_shape \<lparr>kM = 4, kN = 4, kK = 4\<rparr>
                                         \<lparr>gc_m = 4, gc_n = 20, gc_k = 2\<rparr>))) \<and>
            (doesRowChange (tiles tr ! i)
               \<longleftrightarrow> Suc (unat (tile_idx (tiles tr ! i))
                         mod unat (mc_column (grid_shape \<lparr>kM = 4, kN = 4, kK = 4\<rparr>
                                                \<lparr>gc_m = 4, gc_n = 20, gc_k = 2\<rparr>)))
                     = unat (mc_column (grid_shape \<lparr>kM = 4, kN = 4, kK = 4\<rparr>
                                         \<lparr>gc_m = 4, gc_n = 20, gc_k = 2\<rparr>)))))"
proof -
  let ?S = "\<lparr>kM = 4, kN = 4, kK = 4\<rparr>"
  let ?L = "\<lparr>gridDim_x = 2, blockIdx_x = 1, blockDim_x = 32, threadIdx_x = 0\<rparr>"
  let ?P = "\<lparr>gc_m = 4, gc_n = 20, gc_k = 2\<rparr>"
  have h1: "launch_ok ?S ?L" by (simp add: launch_ok_def)
  have h2: "0 < sint (kM ?S)" by simp
  have h3: "0 < sint (kN ?S)" by simp
  have h4: "1 \<le> sint (gc_n ?P)" by simp
  have h5: "sint (gc_n ?P) + sint (kN ?S) \<le> 2 ^ 31" by simp
  obtain tr where r: "operator_call ?S ?L ?P = Some (Inr tr)"
    and B: "\<forall>i. Suc i < length (tiles tr) \<longrightarrow>
              (mc_row (threadblock_offset (tiles tr ! Suc i)) \<noteq> mc_row (threadblock_offset (tiles tr ! i))
                 \<longleftrightarrow> Suc (unat (tile_idx (tiles tr ! i)) mod unat (mc_column (grid_shape ?S ?P)))
                       = unat (mc_column (grid_shape ?S ?P))) \<and>
              (doesRowChange (tiles tr ! i)
                 \<longleftrightarrow> Suc (unat (tile_idx (tiles tr ! i)) mod unat (mc_column (grid_shape ?S ?P)))
                       = unat (mc_column (grid_shape ?S ?P)))"
    using sweep_matches_band_detection [OF h1 h2 h3 h4 h5] by blast
  have "operator_call ?S ?L ?P =
          Some (Inr \<lparr>red_init = [0],
                      prefetch = [\<lparr>smem_index = 0, gmem_index = 0, guard = True\<rparr>],
                      tiles = [\<lparr>tile_idx = 3, threadblock_offset = \<lparr>mc_row = 0, mc_column = 12\<rparr>,
                                isNextTile = True, doesRowChange = False, do_gmem_reduce = False\<rparr>,
                               \<lparr>tile_idx = 4, threadblock_offset = \<lparr>mc_row = 0, mc_column = 16\<rparr>,
                                isNextTile = True, doesRowChange = True, do_gmem_reduce = True\<rparr>,
                               \<lparr>tile_idx = 5, threadblock_offset = \<lparr>mc_row = 4, mc_column = 0\<rparr>,
                                isNextTile = False, doesRowChange = False, do_gmem_reduce = True\<rparr>]\<rparr>)"
    by code_simp
  with r have v: "map (\<lambda>t. (tile_idx t, mc_row (threadblock_offset t), doesRowChange t)) (tiles tr) =
           [(3, 0, False), (4, 0, True), (5, 4, False)]"
    by auto
  from r v B have "\<exists>tr. operator_call ?S ?L ?P = Some (Inr tr) \<and>
         map (\<lambda>t. (tile_idx t, mc_row (threadblock_offset t), doesRowChange t)) (tiles tr) =
           [(3, 0, False), (4, 0, True), (5, 4, False)] \<and>
         (\<forall>i. Suc i < length (tiles tr) \<longrightarrow>
              (mc_row (threadblock_offset (tiles tr ! Suc i)) \<noteq> mc_row (threadblock_offset (tiles tr ! i))
                 \<longleftrightarrow> Suc (unat (tile_idx (tiles tr ! i)) mod unat (mc_column (grid_shape ?S ?P)))
                       = unat (mc_column (grid_shape ?S ?P))) \<and>
              (doesRowChange (tiles tr ! i)
                 \<longleftrightarrow> Suc (unat (tile_idx (tiles tr ! i)) mod unat (mc_column (grid_shape ?S ?P)))
                       = unat (mc_column (grid_shape ?S ?P))))"
    by (intro exI [of _ tr] conjI)
  with h1 h2 h3 h4 h5 show ?thesis by (intro conjI)
qed

section \<open>The code before the loop\<close>



section \<open>Persistent shared memory\<close>

text \<open>
  C6: \<open>reduced_store\<close> and \<open>rownorm_store\<close> are members of \<open>SharedStorage\<close> declared
  after the union \<open>kernel\<close>, so their bytes lie above those of \<open>main_loop\<close> and of
  \<open>epilogue\<close>: every write of a byte of \<open>main_loop\<close> or of \<open>epilogue\<close> succeeds and leaves the
  contents of \<open>reduced_store\<close> and of \<open>rownorm_store\<close> unchanged. Alignments are positive.
\<close>

theorem persistent_stores_survive_union_writes:
  assumes a1: "0 < ty_align (Mma_SharedStorage ts)"
    and a3: "0 < ty_align (TensorTileIterator_SharedStorage ts)"
    and a4: "0 < ty_align (OutputTileIterator_SharedStorage ts)"
    and mb: "mb = main_loop \<or> mb = epilogue" and i: "i < member_size ts mb"
  shows "\<exists>s'. write_member ts mb i v s = Some s' \<and>
           read_member ts reduced_store s' = read_member ts reduced_store s \<and>
           read_member ts rownorm_store s' = read_member ts rownorm_store s"
proof -
  let ?a = "member_offset ts mb + i"
  have w: "write_member ts mb i v s = Some (s (?a := v))"
    using i by (simp add: write_member_def)
  have b1: "member_offset ts mb + member_size ts mb \<le> member_offset ts reduced_store"
    and b2: "member_offset ts reduced_store + member_size ts reduced_store
               \<le> member_offset ts rownorm_store"
    using union_below_persistent [OF a1 a3 a4 mb] by simp_all
  have "?a < member_offset ts reduced_store"
    using i b1 by linarith
  then have r1: "read_member ts reduced_store (s (?a := v)) = read_member ts reduced_store s"
    by (intro read_member_update) simp
  have "?a < member_offset ts rownorm_store"
    using i b1 b2 by linarith
  then have r2: "read_member ts rownorm_store (s (?a := v)) = read_member ts rownorm_store s"
    by (intro read_member_update) simp
  from w r1 r2 show ?thesis by simp
qed

theorem persistent_stores_survive_union_writes_witness:
  "0 < ty_align (Mma_SharedStorage
       \<lparr>Mma_SharedStorage = \<lparr>ty_size = 24, ty_align = 16\<rparr>,
        Epilogue_SharedStorage = \<lparr>ty_size = 40, ty_align = 8\<rparr>,
        TensorTileIterator_SharedStorage = \<lparr>ty_size = 8, ty_align = 8\<rparr>,
        OutputTileIterator_SharedStorage = \<lparr>ty_size = 4, ty_align = 4\<rparr>\<rparr>) \<and>
   0 < ty_align (TensorTileIterator_SharedStorage
       \<lparr>Mma_SharedStorage = \<lparr>ty_size = 24, ty_align = 16\<rparr>,
        Epilogue_SharedStorage = \<lparr>ty_size = 40, ty_align = 8\<rparr>,
        TensorTileIterator_SharedStorage = \<lparr>ty_size = 8, ty_align = 8\<rparr>,
        OutputTileIterator_SharedStorage = \<lparr>ty_size = 4, ty_align = 4\<rparr>\<rparr>) \<and>
   0 < ty_align (OutputTileIterator_SharedStorage
       \<lparr>Mma_SharedStorage = \<lparr>ty_size = 24, ty_align = 16\<rparr>,
        Epilogue_SharedStorage = \<lparr>ty_size = 40, ty_align = 8\<rparr>,
        TensorTileIterator_SharedStorage = \<lparr>ty_size = 8, ty_align = 8\<rparr>,
        OutputTileIterator_SharedStorage = \<lparr>ty_size = 4, ty_align = 4\<rparr>\<rparr>) \<and>
   39 < member_size
       \<lparr>Mma_SharedStorage = \<lparr>ty_size = 24, ty_align = 16\<rparr>,
        Epilogue_SharedStorage = \<lparr>ty_size = 40, ty_align = 8\<rparr>,
        TensorTileIterator_SharedStorage = \<lparr>ty_size = 8, ty_align = 8\<rparr>,
        OutputTileIterator_SharedStorage = \<lparr>ty_size = 4, ty_align = 4\<rparr>\<rparr> epilogue \<and>
   member_offset
       \<lparr>Mma_SharedStorage = \<lparr>ty_size = 24, ty_align = 16\<rparr>,
        Epilogue_SharedStorage = \<lparr>ty_size = 40, ty_align = 8\<rparr>,
        TensorTileIterator_SharedStorage = \<lparr>ty_size = 8, ty_align = 8\<rparr>,
        OutputTileIterator_SharedStorage = \<lparr>ty_size = 4, ty_align = 4\<rparr>\<rparr> reduced_store = 48 \<and>
   member_offset
       \<lparr>Mma_SharedStorage = \<lparr>ty_size = 24, ty_align = 16\<rparr>,
        Epilogue_SharedStorage = \<lparr>ty_size = 40, ty_align = 8\<rparr>,
        TensorTileIterator_SharedStorage = \<lparr>ty_size = 8, ty_align = 8\<rparr>,
        OutputTileIterator_SharedStorage = \<lparr>ty_size = 4, ty_align = 4\<rparr>\<rparr> rownorm_store = 56 \<and>
   (\<exists>s'. write_member
           \<lparr>Mma_SharedStorage = \<lparr>ty_size = 24, ty_align = 16\<rparr>,
            Epilogue_SharedStorage = \<lparr>ty_size = 40, ty_align = 8\<rparr>,
            TensorTileIterator_SharedStorage = \<lparr>ty_size = 8, ty_align = 8\<rparr>,
            OutputTileIterator_SharedStorage = \<lparr>ty_size = 4, ty_align = 4\<rparr>\<rparr>
           epilogue 39 255 (\<lambda>a. 0) = Some s' \<and>
         read_member
           \<lparr>Mma_SharedStorage = \<lparr>ty_size = 24, ty_align = 16\<rparr>,
            Epilogue_SharedStorage = \<lparr>ty_size = 40, ty_align = 8\<rparr>,
            TensorTileIterator_SharedStorage = \<lparr>ty_size = 8, ty_align = 8\<rparr>,
            OutputTileIterator_SharedStorage = \<lparr>ty_size = 4, ty_align = 4\<rparr>\<rparr>
           reduced_store s' = [0, 0, 0, 0, 0, 0, 0, 0] \<and>
         read_member
           \<lparr>Mma_SharedStorage = \<lparr>ty_size = 24, ty_align = 16\<rparr>,
            Epilogue_SharedStorage = \<lparr>ty_size = 40, ty_align = 8\<rparr>,
            TensorTileIterator_SharedStorage = \<lparr>ty_size = 8, ty_align = 8\<rparr>,
            OutputTileIterator_SharedStorage = \<lparr>ty_size = 4, ty_align = 4\<rparr>\<rparr>
           rownorm_store s' = [0, 0, 0, 0])"
proof -
  let ?ts = "\<lparr>Mma_SharedStorage = \<lparr>ty_size = 24, ty_align = 16\<rparr>,
        Epilogue_SharedStorage = \<lparr>ty_size = 40, ty_align = 8\<rparr>,
        TensorTileIterator_SharedStorage = \<lparr>ty_size = 8, ty_align = 8\<rparr>,
        OutputTileIterator_SharedStorage = \<lparr>ty_size = 4, ty_align = 4\<rparr>\<rparr>"
  have h1: "0 < ty_align (Mma_SharedStorage ?ts)" by simp
  have h3: "0 < ty_align (TensorTileIterator_SharedStorage ?ts)" by simp
  have h4: "0 < ty_align (OutputTileIterator_SharedStorage ?ts)" by simp
  have h5: "epilogue = main_loop \<or> epilogue = epilogue" by simp
  have h6: "39 < member_size ?ts epilogue" by (simp add: member_size_def)
  have o1: "member_offset ?ts reduced_store = 48"
    by (simp add: member_offset_def kernel_size_def align_up_def)
  have o2: "member_offset ?ts rownorm_store = 56"
    by (simp add: member_offset_def kernel_size_def align_up_def member_size_def)
  have z1: "read_member ?ts reduced_store (\<lambda>a. 0) = [0, 0, 0, 0, 0, 0, 0, 0]"
    unfolding read_member_def o1 by (simp add: member_size_def upt_rec)
  have z2: "read_member ?ts rownorm_store (\<lambda>a. 0) = [0, 0, 0, 0]"
    unfolding read_member_def o2 by (simp add: member_size_def upt_rec)
  obtain s' where "write_member ?ts epilogue 39 255 (\<lambda>a. 0) = Some s'"
    and "read_member ?ts reduced_store s' = read_member ?ts reduced_store (\<lambda>a. 0)"
    and "read_member ?ts rownorm_store s' = read_member ?ts rownorm_store (\<lambda>a. 0)"
    using persistent_stores_survive_union_writes [OF h1 h3 h4 h5 h6, of 255 "\<lambda>a. 0"] by blast
  then have "\<exists>s'. write_member ?ts epilogue 39 255 (\<lambda>a. 0) = Some s' \<and>
      read_member ?ts reduced_store s' = [0, 0, 0, 0, 0, 0, 0, 0] \<and>
      read_member ?ts rownorm_store s' = [0, 0, 0, 0]"
    unfolding z1 z2 by (intro exI [of _ s'] conjI)
  with h1 h3 h4 h6 o1 o2 show ?thesis by (intro conjI)
qed

end
